theory Spec2Isabelle
  imports Complex_Main "HOL-Library.AList" "HOL-Library.Sublist"
begin

section \<open>Data model of mc_sim.py\<close>

text \<open>
  The Monte Carlo runner is embedded function by function. Conventions:
  \<^item> Python dictionaries whose iteration order the program relies on (the active
    conditions, per-event counters, effect mappings) are association lists with
    Python's insertion-order behaviour: \<open>AList.update\<close> overwrites in place or appends,
    \<open>AList.delete\<close> removes.
  \<^item> The stats dictionary is built once (line 232) with exactly the keys money, health,
    stress, family, friendship, and no statement adds or deletes a key, so it is a record;
    \<open>k not in stats\<close> is "k is none of the five names".
  \<^item> Integers are Python's unbounded ints (\<open>int\<close>); floats are modelled by real numbers.
    Attribute deltas in the catalogs are integers.
  \<^item> Every exception the code can raise on well-typed catalogs is a value of \<open>error\<close>.
  \<^item> The random module is the standard library's; it is a parameter, a record of the
    three operations the program calls.
\<close>

datatype error = KeyError | IndexError | TypeError

record stats =
  money :: int
  health :: int
  stress :: int
  family :: int
  friendship :: int

record cfg =
  recovery_alpha :: real
  recovery_soft_floor :: real
  health_base_regen :: real
  stress_base_decay :: real
  relationship_base_regen :: real
  inflation_per_year :: "real option"
  wage_growth_per_year :: "real option"
  rent :: real
  pos_money_mult :: real
  neg_money_mult :: real
  stress_mult :: real
  anti_repeat_beta :: real
  recent_window :: int
  recent_penalty :: real
  money_hard :: int
  eviction_months :: int
  collections_strikes :: int
  start_money :: int
  start_health :: int
  start_stress :: int
  start_family :: int
  start_friendship :: int
  max_months :: int
  turns_per_month :: int

record sdef =
  sid :: string
  stype :: string
  duration :: "int option"
  stacking :: "string option"
  monthly_effect :: "(string \<times> int) list"

record choice =
  effects :: "(string \<times> int) list"
  action :: "string option"
  add_states :: "string list"
  remove_states :: "string list"

record event =
  eid :: string
  primary_tag :: string
  base_weight :: "real option"
  choices :: "choice list"

text \<open>The value of an active condition is its \<open>remaining\<close> entry; \<open>None\<close> is Python's None.\<close>

type_synonym active = "(string \<times> int option) list"

record 'g generator =
  gen_seed :: "int \<Rightarrow> 'g"
  gen_random :: "'g \<Rightarrow> real \<times> 'g"
  gen_below :: "nat \<Rightarrow> 'g \<Rightarrow> nat \<times> 'g"

definition TAGS :: "string list" where
  "TAGS = [''job'', ''debt'', ''housing'', ''health'', ''social'', ''admin'', ''car'', ''money'']"

section \<open>Leaf functions\<close>

definition clamp :: "'a::linorder \<Rightarrow> 'a \<Rightarrow> 'a \<Rightarrow> 'a" where
  "clamp v lo hi = max lo (min hi v)"

text \<open>Python's \<open>round\<close> on a float: to the nearest integer, halves to the even neighbour.\<close>

definition py_round :: "real \<Rightarrow> int" where
  "py_round x =
     (let f = \<lfloor>x\<rfloor>; d = x - of_int f
      in if d < 1 / 2 then f else if 1 / 2 < d then f + 1
         else if even f then f else f + 1)"

definition effective_gain :: "real \<Rightarrow> int \<Rightarrow> cfg \<Rightarrow> real" where
  "effective_gain base_gain stat_value c =
     (if base_gain \<le> 0 then base_gain
      else let penalty = max 0 (recovery_soft_floor c - of_int stat_value)
           in base_gain * exp (- recovery_alpha c * penalty))"

text \<open>
  \<open>(1.0 + rate) ** (month / 12.0)\<close>. Python gives 1.0 for exponent 0 whatever the base,
  a float for a positive base, 0.0 for base 0, a float for a negative base with an
  integral exponent and a complex number otherwise; the complex number only raises when
  it reaches \<open>round\<close>. \<open>None\<close> stands for the complex result. Months are never negative.
\<close>

definition float_pow_month :: "real \<Rightarrow> int \<Rightarrow> real option" where
  "float_pow_month b month =
     (if month = 0 then Some 1
      else if 0 < b then Some (b powr (of_int month / 12))
      else if b = 0 then Some 0
      else if month mod 12 = 0 then Some (b ^ nat (month div 12))
      else None)"

definition cost_factor :: "int \<Rightarrow> cfg \<Rightarrow> real option" where
  "cost_factor month c =
     float_pow_month (1 + (case inflation_per_year c of None \<Rightarrow> 0 | Some i \<Rightarrow> i)) month"

definition wage_factor :: "int \<Rightarrow> cfg \<Rightarrow> real option" where
  "wage_factor month c =
     float_pow_month (1 + (case wage_growth_per_year c of None \<Rightarrow> 0 | Some w \<Rightarrow> w)) month"

text \<open>\<open>int(round(x * f))\<close> where \<open>f\<close> may be complex: \<open>round\<close> of a complex raises TypeError.\<close>

definition round_scaled :: "real \<Rightarrow> real option \<Rightarrow> error + int" where
  "round_scaled x f = (case f of None \<Rightarrow> Inl TypeError | Some y \<Rightarrow> Inr (py_round (x * y)))"

fun get_stat :: "string \<Rightarrow> stats \<Rightarrow> int option" where
  "get_stat k s =
     (if k = ''money'' then Some (money s)
      else if k = ''health'' then Some (health s)
      else if k = ''stress'' then Some (stress s)
      else if k = ''family'' then Some (family s)
      else if k = ''friendship'' then Some (friendship s)
      else None)"

fun set_stat :: "string \<Rightarrow> int \<Rightarrow> stats \<Rightarrow> stats" where
  "set_stat k v s =
     (if k = ''money'' then s\<lparr>money := v\<rparr>
      else if k = ''health'' then s\<lparr>health := v\<rparr>
      else if k = ''stress'' then s\<lparr>stress := v\<rparr>
      else if k = ''family'' then s\<lparr>family := v\<rparr>
      else if k = ''friendship'' then s\<lparr>friendship := v\<rparr>
      else s)"

definition clamped_keys :: "string list" where
  "clamped_keys = [''health'', ''stress'', ''family'', ''friendship'']"

text \<open>One iteration of the loop of \<open>apply_effects\<close>, and the loop.\<close>

fun apply_effect :: "stats \<Rightarrow> string \<times> int \<Rightarrow> stats" where
  "apply_effect s (k, dv) =
     (case get_stat k s of
        None \<Rightarrow> s
      | Some v \<Rightarrow>
          (if k \<in> set clamped_keys then set_stat k (clamp (v + dv) 0 100) s
           else set_stat k (v + dv) s))"

definition apply_effects :: "stats \<Rightarrow> (string \<times> int) list \<Rightarrow> stats" where
  "apply_effects s eff = foldl apply_effect s eff"

definition has_state :: "active \<Rightarrow> string \<Rightarrow> bool" where
  "has_state act k = (map_of act k \<noteq> None)"

definition setdefault_none :: "active \<Rightarrow> string \<Rightarrow> active" where
  "setdefault_none act k = (if has_state act k then act else act @ [(k, None)])"

definition add_state :: "active \<Rightarrow> sdef \<Rightarrow> active" where
  "add_state act d =
     (if stype d = ''counter'' then setdefault_none act (sid d)
      else case duration d of
        None \<Rightarrow> setdefault_none act (sid d)
      | Some dur \<Rightarrow>
          (case map_of act (sid d) of
             Some rem \<Rightarrow>
               (case rem of
                  Some r \<Rightarrow>
                    (if stacking d = Some ''extend''
                     then AList.update (sid d) (Some (r + dur)) act
                     else AList.update (sid d) (Some dur) act)
                | None \<Rightarrow> AList.update (sid d) (Some dur) act)
           | None \<Rightarrow> AList.update (sid d) (Some dur) act))"

definition remove_state :: "active \<Rightarrow> string \<Rightarrow> active" where
  "remove_state act k = AList.delete k act"

definition fatal_strikes :: "stats \<Rightarrow> active \<Rightarrow> int \<Rightarrow> cfg \<Rightarrow> int" where
  "fatal_strikes s act rent_arrears_months c =
     (let strikes = 0;
          strikes = (if money s < money_hard c then strikes + 1 else strikes);
          strikes = (if has_state act ''S_RENT_ARREARS'' \<and> eviction_months c \<le> rent_arrears_months
                     then strikes + 1 else strikes);
          strikes = (if health s \<le> 0 \<or> 100 \<le> stress s \<or> family s \<le> 0 \<or> friendship s \<le> 0
                     then strikes + 1 else strikes)
      in strikes)"

section \<open>Conditions' recurring effects, choices and rent\<close>

definition monthly_passive :: "stats \<Rightarrow> cfg \<Rightarrow> stats" where
  "monthly_passive s c =
     (let base_h = health_base_regen c * (1 - of_int (stress s) / 140);
          dh = effective_gain base_h (health s) c;
          base_s = stress_base_decay c
                     * (6 / 10 + of_int (health s) / 140 + of_int (friendship s) / 250);
          ds = - base_s;
          base_r = relationship_base_regen c * (1 - of_int (stress s) / 140);
          dr = effective_gain base_r (family s) c;
          df = effective_gain base_r (friendship s) c
      in apply_effects s
           [(''health'', py_round dh), (''stress'', py_round ds),
            (''family'', py_round dr), (''friendship'', py_round df)])"

text \<open>\<open>{s["id"]: s for s in states}\<close>: a later definition with the same id wins.\<close>

definition state_index_of :: "sdef list \<Rightarrow> string \<Rightarrow> sdef option" where
  "state_index_of states = foldl (\<lambda>m d. m(sid d \<mapsto> d)) Map.empty states"

text \<open>The body of the loop over health, family, friendship in \<open>apply_choice\<close>.\<close>

definition scale_gain :: "stats \<Rightarrow> cfg \<Rightarrow> (string \<times> int) list \<Rightarrow> string \<Rightarrow> (string \<times> int) list" where
  "scale_gain s c eff k =
     (case map_of eff k of
        None \<Rightarrow> eff
      | Some v \<Rightarrow>
          (if 0 < v
           then (case get_stat k s of
                   None \<Rightarrow> eff
                 | Some x \<Rightarrow> AList.update k (py_round (effective_gain (of_int v) x c)) eff)
           else eff))"

text \<open>The effect mapping a choice hands to \<open>apply_effects\<close> (lines 127 to 151).\<close>

definition choice_effects ::
  "stats \<Rightarrow> choice \<Rightarrow> active \<Rightarrow> cfg \<Rightarrow> int \<Rightarrow> error + (string \<times> int) list" where
  "choice_effects s ch act c month =
     (let eff = effects ch; cf = cost_factor month c; wf = wage_factor month c
      in case (if action ch = Some ''PAY_RENT''
               then (case round_scaled (rent c) cf of
                       Inl e \<Rightarrow> Inl e
                     | Inr r \<Rightarrow>
                         Inr (AList.update ''money''
                                ((case map_of eff ''money'' of None \<Rightarrow> 0 | Some m \<Rightarrow> m) - r) eff))
               else Inr eff) of
           Inl e \<Rightarrow> Inl e
         | Inr eff \<Rightarrow>
            (let eff = foldl (scale_gain s c) eff [''health'', ''family'', ''friendship'']
             in case (case map_of eff ''money'' of
                        None \<Rightarrow> Inr eff
                      | Some m \<Rightarrow>
                          (if 0 < m
                           then (case wf of
                                   None \<Rightarrow> Inl TypeError
                                 | Some w \<Rightarrow>
                                     (let x = of_int m * pos_money_mult c * w;
                                          x = (if has_state act ''S_HIGH_INTEREST_LOAN''
                                               then x * (85 / 100) else x)
                                      in Inr (AList.update ''money'' (py_round x) eff)))
                           else (case round_scaled (of_int m * neg_money_mult c) cf of
                                   Inl e \<Rightarrow> Inl e
                                 | Inr m' \<Rightarrow> Inr (AList.update ''money'' m' eff)))) of
                  Inl e \<Rightarrow> Inl e
                | Inr eff \<Rightarrow>
                    (case map_of eff ''stress'' of
                       None \<Rightarrow> Inr eff
                     | Some v \<Rightarrow>
                         Inr (AList.update ''stress'' (py_round (of_int v * stress_mult c)) eff))))"

fun add_states_loop :: "active \<Rightarrow> (string \<Rightarrow> sdef option) \<Rightarrow> string list \<Rightarrow> error + active" where
  "add_states_loop act idx [] = Inr act"
| "add_states_loop act idx (k # ks) =
     (case idx k of
        None \<Rightarrow> Inl KeyError
      | Some d \<Rightarrow> add_states_loop (add_state act d) idx ks)"

fun remove_states_loop :: "active \<times> int \<Rightarrow> string list \<Rightarrow> active \<times> int" where
  "remove_states_loop (act, ctr) [] = (act, ctr)"
| "remove_states_loop (act, ctr) (k # ks) =
     remove_states_loop
       (remove_state act k, if k = ''S_RENT_ARREARS'' then 0 else ctr) ks"

definition apply_choice ::
  "stats \<Rightarrow> choice \<Rightarrow> active \<Rightarrow> int \<Rightarrow> cfg \<Rightarrow> int \<Rightarrow> (string \<Rightarrow> sdef option)
     \<Rightarrow> error + (stats \<times> active \<times> int)" where
  "apply_choice s ch act ctr c month idx =
     (case choice_effects s ch act c month of
        Inl e \<Rightarrow> Inl e
      | Inr eff \<Rightarrow>
          (let s' = apply_effects s eff
           in case add_states_loop act idx (add_states ch) of
                Inl e \<Rightarrow> Inl e
              | Inr act' \<Rightarrow>
                  (case remove_states_loop (act', ctr) (remove_states ch) of
                     (act'', ctr') \<Rightarrow> Inr (s', act'', ctr'))))"

text \<open>The first loop of \<open>apply_state_monthly\<close> over a condition's monthly effect.\<close>

definition monthly_prescale ::
  "stats \<Rightarrow> active \<Rightarrow> cfg \<Rightarrow> string \<times> int \<Rightarrow> string \<times> int" where
  "monthly_prescale s act c kv =
     (case kv of (k, v) \<Rightarrow>
        (if k \<in> set [''health'', ''family'', ''friendship''] \<and> 0 < v
         then (case get_stat k s of
                 None \<Rightarrow> (k, v)
               | Some x \<Rightarrow> (k, py_round (effective_gain (of_int v) x c)))
         else if k = ''money'' \<and> 0 < v \<and> has_state act ''S_HIGH_INTEREST_LOAN''
         then (k, py_round (of_int v * (85 / 100)))
         else (k, v)))"

text \<open>The effect mapping a condition hands to \<open>apply_effects\<close> (lines 172 to 189).\<close>

definition monthly_effects ::
  "stats \<Rightarrow> (string \<times> int) list \<Rightarrow> active \<Rightarrow> cfg \<Rightarrow> int \<Rightarrow> error + (string \<times> int) list" where
  "monthly_effects s eff act c month =
     (let cf = cost_factor month c; wf = wage_factor month c;
          eff2 = map (monthly_prescale s act c) eff
      in case (case map_of eff2 ''money'' of
                 None \<Rightarrow> Inr eff2
               | Some m \<Rightarrow>
                   (if 0 < m
                    then (case round_scaled (of_int m * pos_money_mult c) wf of
                            Inl e \<Rightarrow> Inl e
                          | Inr m' \<Rightarrow> Inr (AList.update ''money'' m' eff2))
                    else (case round_scaled (of_int m * neg_money_mult c) cf of
                            Inl e \<Rightarrow> Inl e
                          | Inr m' \<Rightarrow> Inr (AList.update ''money'' m' eff2)))) of
           Inl e \<Rightarrow> Inl e
         | Inr eff2 \<Rightarrow>
             (case map_of eff2 ''stress'' of
                None \<Rightarrow> Inr eff2
              | Some v \<Rightarrow>
                  Inr (AList.update ''stress'' (py_round (of_int v * stress_mult c)) eff2)))"

text \<open>One iteration of the loop of \<open>apply_state_monthly\<close> over the snapshot of the keys.\<close>

definition state_monthly_step ::
  "cfg \<Rightarrow> int \<Rightarrow> (string \<Rightarrow> sdef option) \<Rightarrow> stats \<times> active \<times> int \<Rightarrow> string
     \<Rightarrow> error + (stats \<times> active \<times> int)" where
  "state_monthly_step c month idx st k =
     (case st of (s, act, ctr) \<Rightarrow>
       (case idx k of
          None \<Rightarrow> Inl KeyError
        | Some d \<Rightarrow>
           (case (if k = ''S_PAYCHECK'' \<and> has_state act ''S_LAYOFF'' then Inr s
                  else (case monthly_effects s (monthly_effect d) act c month of
                          Inl e \<Rightarrow> Inl e
                        | Inr eff2 \<Rightarrow> Inr (apply_effects s eff2))) of
              Inl e \<Rightarrow> Inl e
            | Inr s' \<Rightarrow>
               (if stype d = ''counter''
                then Inr (s', act, if k = ''S_RENT_ARREARS'' then ctr + 1 else ctr)
                else (case map_of act k of
                        None \<Rightarrow> Inl KeyError
                      | Some None \<Rightarrow> Inr (s', act, ctr)
                      | Some (Some rem) \<Rightarrow>
                          (if rem - 1 \<le> 0 then Inr (s', AList.delete k act, ctr)
                           else Inr (s', AList.update k (Some (rem - 1)) act, ctr)))))))"

fun state_monthly_loop ::
  "cfg \<Rightarrow> int \<Rightarrow> (string \<Rightarrow> sdef option) \<Rightarrow> stats \<times> active \<times> int \<Rightarrow> string list
     \<Rightarrow> error + (stats \<times> active \<times> int)" where
  "state_monthly_loop c month idx st [] = Inr st"
| "state_monthly_loop c month idx st (k # ks) =
     (case state_monthly_step c month idx st k of
        Inl e \<Rightarrow> Inl e
      | Inr st' \<Rightarrow> state_monthly_loop c month idx st' ks)"

definition apply_state_monthly ::
  "stats \<Rightarrow> active \<Rightarrow> int \<Rightarrow> cfg \<Rightarrow> int \<Rightarrow> (string \<Rightarrow> sdef option)
     \<Rightarrow> error + (stats \<times> active \<times> int)" where
  "apply_state_monthly s act ctr c month idx =
     state_monthly_loop c month idx (s, act, ctr) (map fst act)"

definition month_end_rent ::
  "stats \<Rightarrow> active \<Rightarrow> cfg \<Rightarrow> int \<Rightarrow> (string \<Rightarrow> sdef option) \<Rightarrow> error + (stats \<times> active)" where
  "month_end_rent s act c month idx =
     (case round_scaled (rent c) (cost_factor month c) of
        Inl e \<Rightarrow> Inl e
      | Inr r \<Rightarrow>
         (case (if has_state act ''S_RENT_DUE''
                then (if r \<le> money s
                      then Inr (apply_effects s [(''money'', - r), (''stress'', - 1)],
                                remove_state act ''S_RENT_DUE'')
                      else (case idx ''S_RENT_ARREARS'' of
                              None \<Rightarrow> Inl KeyError
                            | Some d \<Rightarrow> Inr (s, add_state (remove_state act ''S_RENT_DUE'') d)))
                else Inr (s, act)) of
            Inl e \<Rightarrow> Inl e
          | Inr (s', act') \<Rightarrow>
              (case idx ''S_RENT_DUE'' of
                 None \<Rightarrow> Inl KeyError
               | Some d \<Rightarrow> Inr (s', add_state act' d))))"

section \<open>Weighted draws\<close>

definition state_tag_mult :: "(string \<times> (string \<times> real) list) list" where
  "state_tag_mult =
     [(''S_LAYOFF'', [(''job'', 16 / 10), (''debt'', 135 / 100), (''money'', 9 / 10), (''social'', 95 / 100)]),
      (''S_RENT_ARREARS'', [(''housing'', 17 / 10), (''debt'', 125 / 100), (''job'', 11 / 10)]),
      (''S_HIGH_INTEREST_LOAN'', [(''debt'', 155 / 100), (''money'', 85 / 100)]),
      (''S_CREDIT_CARD_DEBT'', [(''debt'', 125 / 100), (''money'', 92 / 100)]),
      (''S_INJURED'', [(''health'', 155 / 100), (''job'', 95 / 100)]),
      (''S_HEALTH_SCARE'', [(''health'', 135 / 100), (''admin'', 11 / 10)]),
      (''S_IMMIGRATION_ISSUE'', [(''admin'', 155 / 100), (''job'', 11 / 10)]),
      (''S_CAR_BROKEN'', [(''car'', 18 / 10), (''job'', 105 / 100)]),
      (''S_SOCIAL_ISOLATION'', [(''social'', 145 / 100), (''health'', 11 / 10)]),
      (''S_WINDFALL_BUFFER'', [(''debt'', 88 / 100), (''housing'', 92 / 100), (''money'', 112 / 100)]),
      (''S_RENT_DUE'', [(''housing'', 22 / 10)]),
      (''S_TAX_DUE'', [(''admin'', 2)]),
      (''S_TRAFFIC_TICKET'', [(''car'', 16 / 10), (''admin'', 115 / 100)]),
      (''S_COLLECTIONS_NOTICE'', [(''debt'', 14 / 10), (''admin'', 12 / 10)])]"

definition tag_weights ::
  "active \<Rightarrow> (string \<times> (string \<times> real) list) list \<Rightarrow> (string \<times> real) list" where
  "tag_weights act stm =
     (let w = map (\<lambda>t. (t, 1)) TAGS;
          w = foldl (\<lambda>w k. case map_of stm k of
                               None \<Rightarrow> w
                             | Some mods \<Rightarrow>
                                 foldl (\<lambda>w tm. AList.map_entry (fst tm) (\<lambda>x. x * snd tm) w) w mods)
                w (map fst act)
      in map (\<lambda>tw. (fst tw, clamp (snd tw) (75 / 100) (155 / 100))) w)"

text \<open>
  The loop of \<open>weighted_choice\<close>: \<open>acc\<close> is the running sum, \<open>None\<close> means the loop ended
  without returning.
\<close>

fun scan_weights :: "real \<Rightarrow> real \<Rightarrow> ('a \<times> real) list \<Rightarrow> 'a option" where
  "scan_weights r acc [] = None"
| "scan_weights r acc ((it, w) # rest) =
     (if r \<le> acc + w then Some it else scan_weights r (acc + w) rest)"

text \<open>\<open>weighted_choice\<close> once \<open>random.random()\<close> has returned \<open>u\<close>.\<close>

definition weighted_pick :: "real \<Rightarrow> 'a list \<Rightarrow> real list \<Rightarrow> error + 'a" where
  "weighted_pick u items weights =
     (let total = sum_list weights; r = u * total
      in case scan_weights r 0 (zip items weights) of
           Some it \<Rightarrow> Inr it
         | None \<Rightarrow> (if items = [] then Inl IndexError else Inr (last items)))"

definition weighted_choice ::
  "'g generator \<Rightarrow> 'a list \<Rightarrow> real list \<Rightarrow> 'g \<Rightarrow> error + ('a \<times> 'g)" where
  "weighted_choice R items weights g =
     (case gen_random R g of (u, g') \<Rightarrow>
        (case weighted_pick u items weights of
           Inl e \<Rightarrow> Inl e
         | Inr it \<Rightarrow> Inr (it, g')))"

text \<open>
  \<open>random.choice(seq)\<close>: IndexError on an empty sequence, otherwise the element at the
  index the generator returns.
\<close>

definition random_choice :: "'g generator \<Rightarrow> 'a list \<Rightarrow> 'g \<Rightarrow> error + ('a \<times> 'g)" where
  "random_choice R xs g =
     (if xs = [] then Inl IndexError
      else case gen_below R (length xs) g of (k, g') \<Rightarrow>
             (if k < length xs then Inr (xs ! k, g') else Inl IndexError))"

definition build_pools :: "event list \<Rightarrow> (string \<times> event list) list" where
  "build_pools events =
     foldl (\<lambda>pools ev.
              AList.update (primary_tag ev)
                ((case map_of pools (primary_tag ev) of None \<Rightarrow> [] | Some evs \<Rightarrow> evs) @ [ev])
                pools)
       [] events"

text \<open>\<open>recent_list[-recent_window:]\<close> as a list, guarded by \<open>recent_window > 0\<close>.\<close>

definition recent_ids :: "string list \<Rightarrow> int \<Rightarrow> string list" where
  "recent_ids recent_list window =
     (if 0 < window then drop (length recent_list - nat window) recent_list else [])"

text \<open>The weight the loop of \<open>draw_event\<close> gives one candidate (lines 116 to 120).\<close>

definition event_weight :: "cfg \<Rightarrow> (string \<times> nat) list \<Rightarrow> string list \<Rightarrow> event \<Rightarrow> real" where
  "event_weight c seen_counts recent_list ev =
     (let seen = (case map_of seen_counts (eid ev) of None \<Rightarrow> 0 | Some n \<Rightarrow> n);
          w = (case base_weight ev of None \<Rightarrow> 1 | Some b \<Rightarrow> b)
                / ((1 + of_nat seen) powr anti_repeat_beta c)
      in if eid ev \<in> set (recent_ids recent_list (recent_window c))
         then w * recent_penalty c else w)"

definition draw_event ::
  "'g generator \<Rightarrow> (string \<times> event list) list \<Rightarrow> active \<Rightarrow> (string \<times> nat) list \<Rightarrow> string list
     \<Rightarrow> cfg \<Rightarrow> (string \<times> (string \<times> real) list) list \<Rightarrow> 'g \<Rightarrow> error + (event \<times> 'g)" where
  "draw_event R pools act seen_counts recent_list c stm g =
     (let tw = tag_weights act stm
      in case weighted_choice R (map fst tw) (map snd tw) g of
           Inl e \<Rightarrow> Inl e
         | Inr (tag, g') \<Rightarrow>
            (case map_of pools tag of
               None \<Rightarrow> Inl KeyError
             | Some pool \<Rightarrow>
                 weighted_choice R pool (map (event_weight c seen_counts recent_list) pool) g'))"

section \<open>One run\<close>

datatype eval_point = AfterChoice | AfterRent

text \<open>
  The variables of \<open>simulate_one\<close>. The last two fields are not in the program: \<open>st_drawn\<close>
  lists every event id drawn so far, oldest first, and \<open>st_evals\<close> lists the termination
  evaluations made so far with the strike count each returned.
\<close>

record 'g sim =
  st_stats :: stats
  st_active :: active
  st_arrears :: int
  st_seen :: "(string \<times> nat) list"
  st_recent :: "string list"
  st_counts :: "(string \<times> nat) list"
  st_gen :: 'g
  st_drawn :: "string list"
  st_evals :: "(eval_point \<times> int) list"

definition bump :: "(string \<times> nat) list \<Rightarrow> string \<Rightarrow> (string \<times> nat) list" where
  "bump m k = AList.update k ((case map_of m k of None \<Rightarrow> 0 | Some n \<Rightarrow> n) + 1) m"

text \<open>Lines 256 to 258.\<close>

definition push_recent :: "string list \<Rightarrow> string \<Rightarrow> string list" where
  "push_recent recent k =
     (let recent = recent @ [k]
      in if 40 < length recent then drop (length recent - 40) recent else recent)"

text \<open>
  The comparison \<open>fatal_strikes(...) >= collections_strikes\<close> at either evaluation point:
  the flag says that the run returns False here.
\<close>

definition check_strikes :: "eval_point \<Rightarrow> cfg \<Rightarrow> 'g sim \<Rightarrow> bool \<times> 'g sim" where
  "check_strikes p c st =
     (let n = fatal_strikes (st_stats st) (st_active st) (st_arrears st) c
      in (collections_strikes c \<le> n, st\<lparr>st_evals := st_evals st @ [(p, n)]\<rparr>))"

text \<open>Lines 253 to 261: one event draw and the application of one of its choices.\<close>

definition turn ::
  "'g generator \<Rightarrow> (string \<times> event list) list \<Rightarrow> cfg \<Rightarrow> (string \<Rightarrow> sdef option) \<Rightarrow> int
     \<Rightarrow> 'g sim \<Rightarrow> error + 'g sim" where
  "turn R pools c idx month st =
     (case draw_event R pools (st_active st) (st_seen st) (st_recent st) c state_tag_mult
             (st_gen st) of
        Inl e \<Rightarrow> Inl e
      | Inr (ev, g1) \<Rightarrow>
         (case random_choice R (choices ev) g1 of
            Inl e \<Rightarrow> Inl e
          | Inr (ch, g2) \<Rightarrow>
             (case apply_choice (st_stats st) ch (st_active st) (st_arrears st) c month idx of
                Inl e \<Rightarrow> Inl e
              | Inr (s', act', ctr') \<Rightarrow>
                  Inr (st\<lparr>st_stats := s', st_active := act', st_arrears := ctr',
                          st_seen := bump (st_seen st) (eid ev),
                          st_recent := push_recent (st_recent st) (eid ev),
                          st_counts := bump (st_counts st) (eid ev),
                          st_gen := g2,
                          st_drawn := st_drawn st @ [eid ev]\<rparr>))))"

text \<open>The inner loop; the flag is False when the run has returned False.\<close>

fun turn_loop ::
  "'g generator \<Rightarrow> (string \<times> event list) list \<Rightarrow> cfg \<Rightarrow> (string \<Rightarrow> sdef option) \<Rightarrow> int
     \<Rightarrow> nat \<Rightarrow> 'g sim \<Rightarrow> error + (bool \<times> 'g sim)" where
  "turn_loop R pools c idx month 0 st = Inr (True, st)"
| "turn_loop R pools c idx month (Suc n) st =
     (case turn R pools c idx month st of
        Inl e \<Rightarrow> Inl e
      | Inr st' \<Rightarrow>
          (case check_strikes AfterChoice c st' of
             (hit, st'') \<Rightarrow>
               (if hit then Inr (False, st'') else turn_loop R pools c idx month n st'')))"

text \<open>The body of the loop over months (lines 249 to 268).\<close>

definition month_body ::
  "'g generator \<Rightarrow> (string \<times> event list) list \<Rightarrow> cfg \<Rightarrow> (string \<Rightarrow> sdef option) \<Rightarrow> int
     \<Rightarrow> 'g sim \<Rightarrow> error + (bool \<times> 'g sim)" where
  "month_body R pools c idx month st =
     (let s1 = monthly_passive (st_stats st) c
      in case apply_state_monthly s1 (st_active st) (st_arrears st) c month idx of
           Inl e \<Rightarrow> Inl e
         | Inr (s2, act2, ctr2) \<Rightarrow>
            (case turn_loop R pools c idx month (nat (turns_per_month c))
                    (st\<lparr>st_stats := s2, st_active := act2, st_arrears := ctr2\<rparr>) of
               Inl e \<Rightarrow> Inl e
             | Inr (ok, st3) \<Rightarrow>
                (if \<not> ok then Inr (False, st3)
                 else (case month_end_rent (st_stats st3) (st_active st3) c month idx of
                         Inl e \<Rightarrow> Inl e
                       | Inr (s4, act4) \<Rightarrow>
                           (case check_strikes AfterRent c
                                   (st3\<lparr>st_stats := s4, st_active := act4\<rparr>) of
                              (hit, st5) \<Rightarrow> Inr (\<not> hit, st5))))))"

fun month_loop ::
  "'g generator \<Rightarrow> (string \<times> event list) list \<Rightarrow> cfg \<Rightarrow> (string \<Rightarrow> sdef option) \<Rightarrow> nat
     \<Rightarrow> int \<Rightarrow> 'g sim \<Rightarrow> error + (bool \<times> 'g sim)" where
  "month_loop R pools c idx 0 month st = Inr (True, st)"
| "month_loop R pools c idx (Suc n) month st =
     (case month_body R pools c idx month st of
        Inl e \<Rightarrow> Inl e
      | Inr (ok, st') \<Rightarrow>
          (if ok then month_loop R pools c idx n (month + 1) st' else Inr (False, st')))"

text \<open>Lines 227 to 246: seeding and the initial values.\<close>

definition run_setup :: "'g generator \<Rightarrow> sdef list \<Rightarrow> cfg \<Rightarrow> int \<Rightarrow> error + 'g sim" where
  "run_setup R states c seed =
     (let idx = state_index_of states
      in case idx ''S_RENT_DUE'' of
           None \<Rightarrow> Inl KeyError
         | Some due \<Rightarrow>
            (case idx ''S_PAYCHECK'' of
               None \<Rightarrow> Inl KeyError
             | Some pay \<Rightarrow>
                 Inr \<lparr>st_stats = \<lparr>money = start_money c, health = start_health c,
                                  stress = start_stress c, family = start_family c,
                                  friendship = start_friendship c\<rparr>,
                      st_active = add_state (add_state [] due) pay,
                      st_arrears = 0, st_seen = [], st_recent = [], st_counts = [],
                      st_gen = gen_seed R seed, st_drawn = [], st_evals = []\<rparr>))"

text \<open>The run with all its variables, and \<open>simulate_one\<close>, which returns three of them.\<close>

definition simulate_run ::
  "'g generator \<Rightarrow> event list \<Rightarrow> sdef list \<Rightarrow> cfg \<Rightarrow> int \<Rightarrow> error + (bool \<times> 'g sim)" where
  "simulate_run R events states c seed =
     (case run_setup R states c seed of
        Inl e \<Rightarrow> Inl e
      | Inr st \<Rightarrow>
          month_loop R (build_pools events) c (state_index_of states) (nat (max_months c)) 0 st)"

text \<open>
  \<open>g\<close> is the state of the module's generator when \<open>simulate_one\<close> is called; the second
  component of the result is its state when the function returns.
\<close>

definition simulate_one ::
  "'g generator \<Rightarrow> event list \<Rightarrow> sdef list \<Rightarrow> cfg \<Rightarrow> int \<Rightarrow> 'g
     \<Rightarrow> error + ((bool \<times> nat \<times> (string \<times> nat) list) \<times> 'g)" where
  "simulate_one R events states c seed g =
     (case simulate_run R events states c seed of
        Inl e \<Rightarrow> Inl e
      | Inr (ok, st) \<Rightarrow> Inr ((ok, length (st_seen st), st_counts st), st_gen st))"

section \<open>Predicates used in the statements\<close>

definition in_range :: "stats \<Rightarrow> bool" where
  "in_range s =
     (0 \<le> health s \<and> health s \<le> 100 \<and> 0 \<le> stress s \<and> stress s \<le> 100
      \<and> 0 \<le> family s \<and> family s \<le> 100 \<and> 0 \<le> friendship s \<and> friendship s \<le> 100)"

text \<open>The sum of the money deltas of an effect mapping (a dictionary has at most one).\<close>

definition money_delta :: "(string \<times> int) list \<Rightarrow> int" where
  "money_delta eff = sum_list (map snd (filter (\<lambda>kv. fst kv = ''money'') eff))"

text \<open>The cumulative weight of the candidates up to and including index \<open>i\<close>.\<close>

definition cum_weight :: "real list \<Rightarrow> nat \<Rightarrow> real" where
  "cum_weight weights i = sum_list (take (Suc i) weights)"

text \<open>A generator for concrete runs: every draw is \<open>u\<close>, every index is 0.\<close>

definition const_gen :: "real \<Rightarrow> nat generator" where
  "const_gen u =
     \<lparr>gen_seed = (\<lambda>seed. 0), gen_random = (\<lambda>g. (u, Suc g)), gen_below = (\<lambda>n g. (0, Suc g))\<rparr>"

text \<open>
  A small catalog for concrete runs: rent 1000, no inflation, no passive recovery, a
  paycheck of 3000 a month, one event with tag job and one choice that removes the
  condition ids \<open>rm\<close>, one month of one turn, strike threshold 1, hard money threshold 0.
\<close>

definition small_cfg :: "int \<Rightarrow> cfg" where
  "small_cfg m =
     \<lparr>recovery_alpha = 0, recovery_soft_floor = 0, health_base_regen = 0,
      stress_base_decay = 0, relationship_base_regen = 0, inflation_per_year = None,
      wage_growth_per_year = None, rent = 1000, pos_money_mult = 1, neg_money_mult = 1,
      stress_mult = 1, anti_repeat_beta = 1, recent_window = 5, recent_penalty = 1 / 2,
      money_hard = 0, eviction_months = 3, collections_strikes = 1,
      start_money = m, start_health = 50, start_stress = 50, start_family = 50,
      start_friendship = 50, max_months = 1, turns_per_month = 1\<rparr>"

definition rent_due_sdef :: sdef where
  "rent_due_sdef =
     \<lparr>sid = ''S_RENT_DUE'', stype = ''counter'', duration = None, stacking = None,
      monthly_effect = []\<rparr>"

definition paycheck_sdef :: sdef where
  "paycheck_sdef =
     \<lparr>sid = ''S_PAYCHECK'', stype = ''counter'', duration = None, stacking = None,
      monthly_effect = [(''money'', 3000)]\<rparr>"

definition arrears_sdef :: sdef where
  "arrears_sdef =
     \<lparr>sid = ''S_RENT_ARREARS'', stype = ''counter'', duration = None, stacking = None,
      monthly_effect = []\<rparr>"

definition small_states :: "sdef list" where
  "small_states = [rent_due_sdef, paycheck_sdef, arrears_sdef]"

definition small_choice :: "string list \<Rightarrow> choice" where
  "small_choice rm = \<lparr>effects = [], action = None, add_states = [], remove_states = rm\<rparr>"

definition small_event :: "string list \<Rightarrow> event" where
  "small_event rm =
     \<lparr>eid = ''E_JOB'', primary_tag = ''job'', base_weight = None, choices = [small_choice rm]\<rparr>"







text \<open>
  Vocabulary for the draw history: \<open>tracked\<close> says that the recency list and the seen
  counters agree with the list of all drawn ids; \<open>drawn_weight\<close> is the weight of a
  candidate written in terms of that list.
\<close>

definition tracked :: "'g sim \<Rightarrow> bool" where
  "tracked st =
     (st_recent st = drop (length (st_drawn st) - 40) (st_drawn st)
      \<and> (\<forall>k. map_of (st_seen st) k =
                (if count_list (st_drawn st) k = 0 then None
                 else Some (count_list (st_drawn st) k))))"

definition drawn_weight :: "cfg \<Rightarrow> string list \<Rightarrow> event \<Rightarrow> real" where
  "drawn_weight c drawn ev =
     (case base_weight ev of None \<Rightarrow> 1 | Some b \<Rightarrow> b)
       / ((1 + of_nat (count_list drawn (eid ev))) powr anti_repeat_beta c)
     * (if 0 < recent_window c
           \<and> eid ev \<in> set (drop (length drawn - min (nat (recent_window c)) 40) drawn)
        then recent_penalty c else 1)"

text \<open>
  The diminishing-returns step on one entry of an effect mapping, for the attribute
  \<open>k\<close>: what both scaling paths do to a positive health, family or friendship delta.
\<close>

definition scaled_entry :: "stats \<Rightarrow> cfg \<Rightarrow> string \<Rightarrow> string \<times> int \<Rightarrow> string \<times> int" where
  "scaled_entry s c k kv =
     (if fst kv = k \<and> 0 < snd kv
      then (case get_stat k s of
              None \<Rightarrow> kv
            | Some x \<Rightarrow> (k, py_round (effective_gain (of_int (snd kv)) x c)))
      else kv)"

section \<open>The aggregation loop of main\<close>




section \<open>Termination evaluator\<close>

lemma fatal_strikes_sum:
  "fatal_strikes s act n c =
     (if money s < money_hard c then 1 else 0)
     + (if has_state act ''S_RENT_ARREARS'' \<and> eviction_months c \<le> n then 1 else 0)
     + (if health s \<le> 0 \<or> 100 \<le> stress s \<or> family s \<le> 0 \<or> friendship s \<le> 0 then 1 else 0)"
  by (simp add: fatal_strikes_def)

text \<open>
  Claim C10. A single termination evaluation returns a strike count between 0 and 3:
  it is the sum of three indicators, one for the money signal, one for the arrears
  duration signal and one for the whole vital-stat group, so several vital breaches at
  once add one strike.
\<close>

theorem fatal_strikes_range:
  "0 \<le> fatal_strikes s act n c \<and> fatal_strikes s act n c \<le> 3 \<and>
   fatal_strikes s act n c =
     of_bool (money s < money_hard c)
     + of_bool (has_state act ''S_RENT_ARREARS'' \<and> eviction_months c \<le> n)
     + of_bool (health s \<le> 0 \<or> 100 \<le> stress s \<or> family s \<le> 0 \<or> friendship s \<le> 0)"
  by (simp add: fatal_strikes_sum)

section \<open>Effect application\<close>

lemma apply_effect_other:
  "k \<noteq> fst kv \<Longrightarrow> get_stat k (apply_effect s kv) = get_stat k s"
  by (cases kv) (auto simp: clamped_keys_def)

lemma apply_effect_clamped:
  "k \<in> set clamped_keys \<Longrightarrow> get_stat k (apply_effect s (k, dv)) = Some v
     \<Longrightarrow> 0 \<le> v \<and> v \<le> 100"
  by (auto simp: clamped_keys_def clamp_def)

lemma apply_effect_keeps_range:
  "k \<in> set clamped_keys \<Longrightarrow> get_stat k s = Some x \<Longrightarrow> 0 \<le> x \<and> x \<le> 100 \<Longrightarrow>
   get_stat k (apply_effect s kv) = Some v \<Longrightarrow> 0 \<le> v \<and> v \<le> 100"
  by (cases kv) (auto simp: clamped_keys_def clamp_def split: if_splits)

lemma apply_effect_money:
  "money (apply_effect s kv) = money s + (if fst kv = ''money'' then snd kv else 0)"
  by (cases kv) (auto simp: clamped_keys_def)

lemma get_stat_clamped: "k \<in> set clamped_keys \<Longrightarrow> \<exists>x. get_stat k s = Some x"
  by (auto simp: clamped_keys_def)

lemma get_stat_fields:
  "get_stat ''money'' s = Some (money s)" "get_stat ''health'' s = Some (health s)"
  "get_stat ''stress'' s = Some (stress s)" "get_stat ''family'' s = Some (family s)"
  "get_stat ''friendship'' s = Some (friendship s)"
  by simp_all

declare get_stat.simps [simp del] set_stat.simps [simp del] apply_effect.simps [simp del]

lemma apply_effects_snoc: "apply_effects s (eff @ [kv]) = apply_effect (apply_effects s eff) kv"
  by (simp add: apply_effects_def)

lemma apply_effects_money: "money (apply_effects s eff) = money s + money_delta eff"
  by (induction eff rule: rev_induct)
     (simp_all add: apply_effects_snoc apply_effect_money money_delta_def apply_effects_def)

lemma apply_effects_untouched:
  "k \<notin> fst ` set eff \<Longrightarrow> get_stat k (apply_effects s eff) = get_stat k s"
  by (induction eff rule: rev_induct)
     (simp_all add: apply_effects_snoc apply_effect_other apply_effects_def)

lemma apply_effects_touched:
  "k \<in> set clamped_keys \<Longrightarrow> k \<in> fst ` set eff \<Longrightarrow>
   get_stat k (apply_effects s eff) = Some v \<Longrightarrow> 0 \<le> v \<and> v \<le> 100"
proof (induction eff arbitrary: v rule: rev_induct)
  case Nil
  then show ?case by simp
next
  case (snoc kv eff)
  show ?case
  proof (cases "fst kv = k")
    case True
    then have "kv = (k, snd kv)" by (cases kv) simp
    with snoc.prems(1,3) show ?thesis
      using apply_effect_clamped[of k "apply_effects s eff" "snd kv" v]
      by (simp add: apply_effects_snoc)
  next
    case False
    with snoc.prems have "k \<in> fst ` set eff" by auto
    moreover obtain x where x: "get_stat k (apply_effects s eff) = Some x"
      using get_stat_clamped[OF snoc.prems(1)] by blast
    ultimately have "0 \<le> x \<and> x \<le> 100" using snoc.IH snoc.prems(1) by blast
    with snoc.prems(1,3) x show ?thesis
      using apply_effect_keeps_range[of k "apply_effects s eff" x kv v]
      by (simp add: apply_effects_snoc)
  qed
qed

lemma apply_effects_kept:
  assumes "k \<in> set clamped_keys" "get_stat k s = Some x" "0 \<le> x \<and> x \<le> 100"
    and "get_stat k (apply_effects s eff) = Some v"
  shows "0 \<le> v \<and> v \<le> 100"
proof (cases "k \<in> fst ` set eff")
  case True
  then show ?thesis using assms(1,4) apply_effects_touched by blast
next
  case False
  then show ?thesis using assms(2,3,4) by (simp add: apply_effects_untouched)
qed

lemma apply_effects_in_range: "in_range s \<Longrightarrow> in_range (apply_effects s eff)"
  unfolding in_range_def
  using apply_effects_kept[of "''health''" s "health s" eff "health (apply_effects s eff)"]
        apply_effects_kept[of "''stress''" s "stress s" eff "stress (apply_effects s eff)"]
        apply_effects_kept[of "''family''" s "family s" eff "family (apply_effects s eff)"]
        apply_effects_kept[of "''friendship''" s "friendship s" eff
                              "friendship (apply_effects s eff)"]
  by (simp add: get_stat_fields clamped_keys_def)

text \<open>
  Claim C2, as stated: after one call of \<open>apply_effects\<close>, for every stats mapping and
  every effects mapping, health, stress, family and friendship lie in [0, 100]. The loop
  clamps only the keys the effects mapping names: a stats mapping that starts with health
  150 keeps it through a call that does not name health.
\<close>

theorem apply_effects_range_counterexample:
  "\<not> in_range
       (apply_effects \<lparr>money = 0, health = 150, stress = 0, family = 50, friendship = 50\<rparr> [])"
  by (simp add: apply_effects_def in_range_def)

text \<open>
  Claim C2, amended: after one call, whatever the deltas, each of health, stress, family
  and friendship that the effects mapping names lies in [0, 100]; an attribute it does not
  name keeps its value; hence if the four were in [0, 100] before the call they are
  afterwards. Money is never clamped: it ends at its old value plus the money delta, and
  may be negative.
\<close>

theorem apply_effects_clamps:
  "(''health'' \<in> fst ` set eff \<longrightarrow>
      0 \<le> health (apply_effects s eff) \<and> health (apply_effects s eff) \<le> 100)
   \<and> (''stress'' \<in> fst ` set eff \<longrightarrow>
      0 \<le> stress (apply_effects s eff) \<and> stress (apply_effects s eff) \<le> 100)
   \<and> (''family'' \<in> fst ` set eff \<longrightarrow>
      0 \<le> family (apply_effects s eff) \<and> family (apply_effects s eff) \<le> 100)
   \<and> (''friendship'' \<in> fst ` set eff \<longrightarrow>
      0 \<le> friendship (apply_effects s eff) \<and> friendship (apply_effects s eff) \<le> 100)
   \<and> (k \<notin> fst ` set eff \<longrightarrow> get_stat k (apply_effects s eff) = get_stat k s)
   \<and> (in_range s \<longrightarrow> in_range (apply_effects s eff))
   \<and> money (apply_effects s eff) = money s + money_delta eff"
  using apply_effects_touched[of "''health''" eff s "health (apply_effects s eff)"]
        apply_effects_touched[of "''stress''" eff s "stress (apply_effects s eff)"]
        apply_effects_touched[of "''family''" eff s "family (apply_effects s eff)"]
        apply_effects_touched[of "''friendship''" eff s "friendship (apply_effects s eff)"]
        apply_effects_untouched[of k eff s] apply_effects_in_range[of s eff]
        apply_effects_money[of s eff]
  by (simp add: get_stat_fields clamped_keys_def)

theorem apply_effects_clamps_witness:
  "in_range \<lparr>money = 10, health = 50, stress = 50, family = 50, friendship = 50\<rparr>
   \<and> apply_effects \<lparr>money = 10, health = 50, stress = 50, family = 50, friendship = 50\<rparr>
        [(''health'', 1000000), (''stress'', - 1000000), (''family'', 70),
         (''friendship'', - 70), (''money'', - 5000)]
      = \<lparr>money = - 4990, health = 100, stress = 0, family = 100, friendship = 0\<rparr>
   \<and> get_stat ''luck''
        (apply_effects \<lparr>money = 10, health = 50, stress = 50, family = 50, friendship = 50\<rparr>
           [(''health'', 1000000), (''stress'', - 1000000), (''family'', 70),
            (''friendship'', - 70), (''money'', - 5000)]) = None"
  using apply_effects_clamps
          [of "[(''health'', 1000000), (''stress'', - 1000000), (''family'', 70),
                (''friendship'', - 70), (''money'', - 5000)]"
              "\<lparr>money = 10, health = 50, stress = 50, family = 50, friendship = 50\<rparr>"
              "''luck''"]
  by (simp add: apply_effects_def apply_effect.simps get_stat.simps set_stat.simps
        clamped_keys_def clamp_def in_range_def)

section \<open>Weighted choice\<close>

lemma scan_weights_None:
  "scan_weights r acc ps = None \<longleftrightarrow> (\<forall>i<length ps. \<not> r \<le> acc + cum_weight (map snd ps) i)"
proof (induction ps arbitrary: acc)
  case Nil show ?case by simp
next
  case (Cons p ps)
  obtain it w where p: "p = (it, w)" by (cases p)
  show ?case
    unfolding p
    by (simp add: Cons.IH cum_weight_def All_less_Suc2 add.assoc)
qed

lemma scan_weights_Some:
  "scan_weights r acc ps = Some it \<longleftrightarrow>
     (\<exists>i<length ps. r \<le> acc + cum_weight (map snd ps) i
        \<and> (\<forall>j<i. \<not> r \<le> acc + cum_weight (map snd ps) j) \<and> it = fst (ps ! i))"
proof (induction ps arbitrary: acc)
  case Nil show ?case by simp
next
  case (Cons p ps)
  obtain x w where p: "p = (x, w)" by (cases p)
  show ?case
  proof (cases "r \<le> acc + w")
    case True
    have "(\<exists>i<length (p # ps). r \<le> acc + cum_weight (map snd (p # ps)) i
        \<and> (\<forall>j<i. \<not> r \<le> acc + cum_weight (map snd (p # ps)) j) \<and> it = fst ((p # ps) ! i))
      \<longleftrightarrow> it = x"
    proof
      assume "\<exists>i<length (p # ps). r \<le> acc + cum_weight (map snd (p # ps)) i
        \<and> (\<forall>j<i. \<not> r \<le> acc + cum_weight (map snd (p # ps)) j) \<and> it = fst ((p # ps) ! i)"
      then obtain i where i: "r \<le> acc + cum_weight (map snd (p # ps)) i"
        "\<forall>j<i. \<not> r \<le> acc + cum_weight (map snd (p # ps)) j" "it = fst ((p # ps) ! i)" by blast
      have "i = 0"
      proof (rule ccontr)
        assume "i \<noteq> 0"
        then have "\<not> r \<le> acc + cum_weight (map snd (p # ps)) 0" using i(2) by blast
        then show False using True by (simp add: cum_weight_def p)
      qed
      then show "it = x" using i(3) p by simp
    next
      assume "it = x"
      then show "\<exists>i<length (p # ps). r \<le> acc + cum_weight (map snd (p # ps)) i
        \<and> (\<forall>j<i. \<not> r \<le> acc + cum_weight (map snd (p # ps)) j) \<and> it = fst ((p # ps) ! i)"
        using True by (intro exI[of _ 0]) (simp add: cum_weight_def p)
    qed
    then show ?thesis using True by (simp add: p eq_commute)
  next
    case False
    have shift: "\<And>i. acc + cum_weight (map snd (p # ps)) (Suc i) = acc + w + cum_weight (map snd ps) i"
      by (simp add: cum_weight_def p)
    have zero: "acc + cum_weight (map snd (p # ps)) 0 = acc + w"
      by (simp add: cum_weight_def p)
    have "(\<exists>i<length (p # ps). r \<le> acc + cum_weight (map snd (p # ps)) i
        \<and> (\<forall>j<i. \<not> r \<le> acc + cum_weight (map snd (p # ps)) j) \<and> it = fst ((p # ps) ! i))
      \<longleftrightarrow> (\<exists>i<length ps. r \<le> acc + w + cum_weight (map snd ps) i
        \<and> (\<forall>j<i. \<not> r \<le> acc + w + cum_weight (map snd ps) j) \<and> it = fst (ps ! i))"
      (is "?L \<longleftrightarrow> ?R")
    proof
      assume ?L
      then obtain i where i: "i < length (p # ps)" "r \<le> acc + cum_weight (map snd (p # ps)) i"
        "\<forall>j<i. \<not> r \<le> acc + cum_weight (map snd (p # ps)) j" "it = fst ((p # ps) ! i)" by blast
      from i(2) False zero have "i \<noteq> 0" by (cases i) auto
      then obtain k where k: "i = Suc k" by (cases i) auto
      have "\<forall>j<k. \<not> r \<le> acc + w + cum_weight (map snd ps) j"
      proof (intro allI impI)
        fix j assume "j < k"
        then have "Suc j < i" using k by simp
        then show "\<not> r \<le> acc + w + cum_weight (map snd ps) j" using i(3) shift by metis
      qed
      then show ?R using i k shift by (intro exI[of _ k]) simp
    next
      assume ?R
      then obtain k where k: "k < length ps" "r \<le> acc + w + cum_weight (map snd ps) k"
        "\<forall>j<k. \<not> r \<le> acc + w + cum_weight (map snd ps) j" "it = fst (ps ! k)" by blast
      have "\<forall>j<Suc k. \<not> r \<le> acc + cum_weight (map snd (p # ps)) j"
      proof (intro allI impI)
        fix j assume j: "j < Suc k"
        show "\<not> r \<le> acc + cum_weight (map snd (p # ps)) j"
        proof (cases j)
          case 0 then show ?thesis using False zero by simp
        next
          case (Suc m)
          then have "m < k" using j by simp
          then show ?thesis using k(3) shift Suc by metis
        qed
      qed
      then show ?L using k shift by (intro exI[of _ "Suc k"]) simp
    qed
    then show ?thesis using False by (simp add: p Cons.IH)
  qed
qed

lemma cum_weight_zip:
  "i < length (zip xs ws) \<Longrightarrow> cum_weight (map snd (zip xs ws)) i = cum_weight ws i"
  by (simp add: cum_weight_def map_snd_zip_take min_def take_map[symmetric])

lemma weighted_pick_cases:
  "(\<exists>i<min (length items) (length weights).
       u * sum_list weights \<le> cum_weight weights i
       \<and> (\<forall>j<i. cum_weight weights j < u * sum_list weights)
       \<and> weighted_pick u items weights = Inr (items ! i))
   \<or> ((\<forall>i<min (length items) (length weights). cum_weight weights i < u * sum_list weights)
       \<and> weighted_pick u items weights
           = (if items = [] then Inl IndexError else Inr (last items)))"
proof (cases "scan_weights (u * sum_list weights) 0 (zip items weights)")
  case None
  then have "\<forall>i<min (length items) (length weights).
               cum_weight weights i < u * sum_list weights"
    using cum_weight_zip[of _ items weights]
    by (auto simp: scan_weights_None not_le)
  then show ?thesis using None by (simp add: weighted_pick_def)
next
  case (Some it)
  then obtain i where i: "i < length (zip items weights)"
      "u * sum_list weights \<le> cum_weight (map snd (zip items weights)) i"
      "\<forall>j<i. \<not> u * sum_list weights \<le> cum_weight (map snd (zip items weights)) j"
      "it = fst (zip items weights ! i)"
    by (auto simp: scan_weights_Some)
  have "\<forall>j<i. cum_weight weights j < u * sum_list weights"
  proof (intro allI impI)
    fix j assume "j < i"
    then have "j < length (zip items weights)" "\<not> u * sum_list weights
        \<le> cum_weight (map snd (zip items weights)) j" using i(1,3) by auto
    then show "cum_weight weights j < u * sum_list weights"
      by (simp add: cum_weight_zip)
  qed
  moreover have "u * sum_list weights \<le> cum_weight weights i"
    using i(1,2) by (simp add: cum_weight_zip)
  moreover have "weighted_pick u items weights = Inr (items ! i)"
    using Some i(1,4) by (simp add: weighted_pick_def)
  ultimately show ?thesis using i(1) by auto
qed

lemma weighted_pick_zero:
  assumes "items \<noteq> []" "weights \<noteq> []" "\<forall>w\<in>set weights. w = 0"
  shows "weighted_pick u items weights = Inr (hd items)"
proof -
  obtain x xs where x: "items = x # xs" using assms(1) by (cases items) auto
  obtain w ws where w: "weights = w # ws" using assms(2) by (cases weights) auto
  have "sum_list weights = 0" using assms(3) by (induction weights) auto
  moreover have "w = 0" using assms(3) w by simp
  ultimately show ?thesis by (simp add: weighted_pick_def x w)
qed

text \<open>
  Claim C1, as stated: a pool whose weights are all zero falls back to the last candidate.
  With weights 0 and 0 the draw times the total is 0, the first running sum is 0, and
  \<open>r <= acc\<close> returns the first candidate.
\<close>

theorem weighted_choice_zero_counterexample:
  "weighted_choice (const_gen (1 / 2)) [''first'', ''last''] [0, 0] 0
     \<noteq> Inr (last [''first'', ''last''], 1)"
  by (simp add: weighted_choice_def weighted_pick_def const_gen_def)

text \<open>
  Claim C1, amended: for every candidate list, weights and draw \<open>u\<close>, the weighted choice
  returns the first candidate in iteration order whose cumulative weight is greater than
  or equal to \<open>u\<close> times the total weight; the last candidate is returned only when no
  cumulative weight reaches that value (IndexError when there is no candidate at all).
  A pool whose weights are all zero yields its first candidate.
\<close>

theorem weighted_choice_first:
  assumes "gen_random R g = (u, g')"
  shows "((\<exists>i<min (length items) (length weights).
             u * sum_list weights \<le> cum_weight weights i
             \<and> (\<forall>j<i. cum_weight weights j < u * sum_list weights)
             \<and> weighted_choice R items weights g = Inr (items ! i, g'))
          \<or> ((\<forall>i<min (length items) (length weights).
                  cum_weight weights i < u * sum_list weights)
             \<and> weighted_choice R items weights g
                 = (if items = [] then Inl IndexError else Inr (last items, g'))))
         \<and> (items \<noteq> [] \<and> weights \<noteq> [] \<and> (\<forall>w\<in>set weights. w = 0)
              \<longrightarrow> weighted_choice R items weights g = Inr (hd items, g'))"
proof -
  have wc: "weighted_choice R items weights g
      = (case weighted_pick u items weights of Inl e \<Rightarrow> Inl e | Inr it \<Rightarrow> Inr (it, g'))"
    using assms by (simp add: weighted_choice_def)
  have "items \<noteq> [] \<and> weights \<noteq> [] \<and> (\<forall>w\<in>set weights. w = 0)
          \<longrightarrow> weighted_choice R items weights g = Inr (hd items, g')"
    using weighted_pick_zero[of items weights u] by (auto simp: wc)
  moreover have "(\<exists>i<min (length items) (length weights).
             u * sum_list weights \<le> cum_weight weights i
             \<and> (\<forall>j<i. cum_weight weights j < u * sum_list weights)
             \<and> weighted_choice R items weights g = Inr (items ! i, g'))
          \<or> ((\<forall>i<min (length items) (length weights).
                  cum_weight weights i < u * sum_list weights)
             \<and> weighted_choice R items weights g
                 = (if items = [] then Inl IndexError else Inr (last items, g')))"
    using weighted_pick_cases[of items weights u] by (auto simp: wc)
  ultimately show ?thesis by blast
qed

theorem weighted_choice_first_witness:
  "gen_random (const_gen (1 / 2)) 0 = (1 / 2, 1)
   \<and> (1 / 2) * sum_list [1, 2, 3 :: real] \<le> cum_weight [1, 2, 3] 1
   \<and> cum_weight [1, 2, 3] 0 < (1 / 2) * sum_list [1, 2, 3 :: real]
   \<and> weighted_choice (const_gen (1 / 2)) [''a'', ''b'', ''c''] [1, 2, 3] 0 = Inr (''b'', 1)
   \<and> weighted_choice (const_gen (1 / 2)) [''a'', ''b'', ''c''] [0, 0, 0] 0 = Inr (''a'', 1)"
  using weighted_choice_first
          [of "const_gen (1 / 2)" 0 "1 / 2" 1 "[''a'', ''b'', ''c'']" "[1, 2, 3]"]
        weighted_choice_first
          [of "const_gen (1 / 2)" 0 "1 / 2" 1 "[''a'', ''b'', ''c'']" "[0, 0, 0]"]
  by (simp add: weighted_choice_def weighted_pick_def const_gen_def cum_weight_def)

section \<open>Conditions and the rent cycle\<close>

lemma has_state_iff: "has_state act k \<longleftrightarrow> k \<in> fst ` set act"
  by (simp add: has_state_def map_of_eq_None_iff)

lemma has_state_remove: "has_state (remove_state act k') k \<longleftrightarrow> has_state act k \<and> k \<noteq> k'"
  by (auto simp: has_state_def remove_state_def delete_conv')

lemma has_state_update: "has_state (AList.update k' v act) k \<longleftrightarrow> has_state act k \<or> k = k'"
  by (auto simp: has_state_def update_conv')

lemma has_state_setdefault: "has_state (setdefault_none act k') k \<longleftrightarrow> has_state act k \<or> k = k'"
  by (auto simp: has_state_def setdefault_none_def map_add_def split: option.splits)

lemma has_state_add: "has_state (add_state act d) k \<longleftrightarrow> has_state act k \<or> k = sid d"
  by (simp add: add_state_def has_state_setdefault has_state_update split: option.splits)

lemma state_index_of_snoc:
  "state_index_of (states @ [d]) = (state_index_of states)(sid d \<mapsto> d)"
  by (simp add: state_index_of_def)

lemma state_index_of_sid: "state_index_of states k = Some d \<Longrightarrow> sid d = k"
proof (induction states rule: rev_induct)
  case Nil
  then show ?case by (simp add: state_index_of_def)
next
  case (snoc x xs)
  then show ?case by (cases "k = sid x") (simp_all add: state_index_of_snoc)
qed

lemma apply_effects_rent:
  "apply_effects s [(''money'', - r), (''stress'', - 1)]
    = s\<lparr>money := money s - r, stress := clamp (stress s - 1) 0 100\<rparr>"
  by (simp add: apply_effects_def apply_effect.simps get_stat.simps set_stat.simps clamped_keys_def)

lemma py_round_of_int [simp]: "py_round (of_int n) = n"
  by (simp add: py_round_def)

lemma py_round_numeral [simp]:
  "py_round (numeral n) = numeral n" "py_round 0 = 0" "py_round 1 = 1"
  "py_round (- numeral n) = - numeral n"
  using py_round_of_int[of "numeral n"] py_round_of_int[of 0] py_round_of_int[of 1]
        py_round_of_int[of "- numeral n"]
  by simp_all

subsection \<open>Two concrete runs\<close>

lemma small_index:
  "state_index_of small_states ''S_RENT_DUE'' = Some rent_due_sdef"
  "state_index_of small_states ''S_PAYCHECK'' = Some paycheck_sdef"
  "state_index_of small_states ''S_RENT_ARREARS'' = Some arrears_sdef"
  by (simp_all add: state_index_of_def small_states_def rent_due_sdef_def paycheck_sdef_def
        arrears_sdef_def)

lemmas eval_defs = Let_def rent_due_sdef_def paycheck_sdef_def arrears_sdef_def small_cfg_def
  add_state_def setdefault_none_def has_state_def const_gen_def remove_state_def
  effective_gain_def apply_effects_def apply_effect.simps get_stat.simps set_stat.simps
  clamped_keys_def clamp_def wage_factor_def cost_factor_def float_pow_month_def
  round_scaled_def

lemma tag_weights_small:
  "tag_weights [(''S_RENT_DUE'', None), (''S_PAYCHECK'', None)] state_tag_mult
     = [(''job'', 1), (''debt'', 1), (''housing'', 155 / 100), (''health'', 1), (''social'', 1),
        (''admin'', 1), (''car'', 1), (''money'', 1)]"
  by (simp add: tag_weights_def state_tag_mult_def TAGS_def clamp_def)

lemma setup_skip:
  "run_setup (const_gen 0) small_states (small_cfg 5000) 0 =
     Inr \<lparr>st_stats = \<lparr>money = 5000, health = 50, stress = 50, family = 50, friendship = 50\<rparr>,
        st_active = [(''S_RENT_DUE'', None), (''S_PAYCHECK'', None)],
        st_arrears = 0, st_seen = [], st_recent = [], st_counts = [], st_gen = 0,
        st_drawn = [], st_evals = []\<rparr>"
  by (simp add: run_setup_def small_index eval_defs)

lemma passive_skip:
  "monthly_passive \<lparr>money = 5000, health = 50, stress = 50, family = 50, friendship = 50\<rparr> (small_cfg 5000)
     = \<lparr>money = 5000, health = 50, stress = 50, family = 50, friendship = 50\<rparr>"
  by (simp add: monthly_passive_def eval_defs)

lemma monthly_skip:
  "apply_state_monthly \<lparr>money = 5000, health = 50, stress = 50, family = 50, friendship = 50\<rparr>
     [(''S_RENT_DUE'', None), (''S_PAYCHECK'', None)] 0 (small_cfg 5000) 0 (state_index_of small_states)
   = Inr (\<lparr>money = 8000, health = 50, stress = 50, family = 50, friendship = 50\<rparr>,
          [(''S_RENT_DUE'', None), (''S_PAYCHECK'', None)], 0)"
  by (simp add: apply_state_monthly_def state_monthly_step_def small_index monthly_effects_def
        monthly_prescale_def eval_defs)

lemma draw_skip:
  "draw_event (const_gen 0) [(''job'', [small_event [''S_RENT_DUE'']])]
     [(''S_RENT_DUE'', None), (''S_PAYCHECK'', None)] [] [] (small_cfg 5000) state_tag_mult 0
   = Inr (small_event [''S_RENT_DUE''], 2)"
  by (simp add: draw_event_def tag_weights_small weighted_choice_def weighted_pick_def
        const_gen_def small_event_def event_weight_def recent_ids_def small_cfg_def)

lemma pick_skip:
  "random_choice (const_gen 0) (choices (small_event [''S_RENT_DUE''])) 2 = Inr (small_choice [''S_RENT_DUE''], 3)"
  by (simp add: random_choice_def const_gen_def small_event_def)

lemma choice_skip:
  "apply_choice \<lparr>money = 8000, health = 50, stress = 50, family = 50, friendship = 50\<rparr> (small_choice [''S_RENT_DUE''])
     [(''S_RENT_DUE'', None), (''S_PAYCHECK'', None)] 0 (small_cfg 5000) 0 (state_index_of small_states)
   = Inr (\<lparr>money = 8000, health = 50, stress = 50, family = 50, friendship = 50\<rparr>,
          [(''S_PAYCHECK'', None)], 0)"
  by (simp add: apply_choice_def choice_effects_def small_choice_def scale_gain_def eval_defs)

lemma turn_skip:
  "turn (const_gen 0) [(''job'', [small_event [''S_RENT_DUE'']])] (small_cfg 5000) (state_index_of small_states) 0
     \<lparr>st_stats = \<lparr>money = 8000, health = 50, stress = 50, family = 50, friendship = 50\<rparr>,
        st_active = [(''S_RENT_DUE'', None), (''S_PAYCHECK'', None)],
        st_arrears = 0, st_seen = [], st_recent = [], st_counts = [], st_gen = 0,
        st_drawn = [], st_evals = []\<rparr>
   = Inr \<lparr>st_stats = \<lparr>money = 8000, health = 50, stress = 50, family = 50, friendship = 50\<rparr>,
        st_active = [(''S_PAYCHECK'', None)],
        st_arrears = 0, st_seen = [(''E_JOB'', 1)], st_recent = [''E_JOB''],
        st_counts = [(''E_JOB'', 1)], st_gen = 3, st_drawn = [''E_JOB''],
        st_evals = []\<rparr>"
  by (simp add: turn_def draw_skip pick_skip choice_skip bump_def push_recent_def,
      simp add: small_event_def)

lemma rent_skip:
  "month_end_rent \<lparr>money = 8000, health = 50, stress = 50, family = 50, friendship = 50\<rparr>
     [(''S_PAYCHECK'', None)] (small_cfg 5000) 0 (state_index_of small_states)
   = Inr (\<lparr>money = 8000, health = 50, stress = 50, family = 50, friendship = 50\<rparr>,
          [(''S_PAYCHECK'', None), (''S_RENT_DUE'', None)])"
  by (simp add: month_end_rent_def small_index eval_defs)

lemma body_skip:
  "month_body (const_gen 0) [(''job'', [small_event [''S_RENT_DUE'']])] (small_cfg 5000)
     (state_index_of small_states) 0
     \<lparr>st_stats = \<lparr>money = 5000, health = 50, stress = 50, family = 50, friendship = 50\<rparr>,
        st_active = [(''S_RENT_DUE'', None), (''S_PAYCHECK'', None)],
        st_arrears = 0, st_seen = [], st_recent = [], st_counts = [], st_gen = 0,
        st_drawn = [], st_evals = []\<rparr>
   = Inr (True,
       \<lparr>st_stats = \<lparr>money = 8000, health = 50, stress = 50, family = 50, friendship = 50\<rparr>,
        st_active = [(''S_PAYCHECK'', None), (''S_RENT_DUE'', None)],
        st_arrears = 0, st_seen = [(''E_JOB'', 1)], st_recent = [''E_JOB''],
        st_counts = [(''E_JOB'', 1)], st_gen = 3, st_drawn = [''E_JOB''],
        st_evals = [(AfterChoice, 0), (AfterRent, 0)]\<rparr>)"
proof -
  have T: "nat (turns_per_month (small_cfg 5000)) = Suc 0" by (simp add: small_cfg_def)
  show ?thesis
    by (simp add: month_body_def passive_skip monthly_skip T turn_skip check_strikes_def
          fatal_strikes_def has_state_def rent_skip, simp add: small_cfg_def)
qed

lemma run_skip:
  "simulate_run (const_gen 0) [small_event [''S_RENT_DUE'']] small_states (small_cfg 5000) 0
   = Inr (True,
       \<lparr>st_stats = \<lparr>money = 8000, health = 50, stress = 50, family = 50, friendship = 50\<rparr>,
        st_active = [(''S_PAYCHECK'', None), (''S_RENT_DUE'', None)],
        st_arrears = 0, st_seen = [(''E_JOB'', 1)], st_recent = [''E_JOB''],
        st_counts = [(''E_JOB'', 1)], st_gen = 3, st_drawn = [''E_JOB''],
        st_evals = [(AfterChoice, 0), (AfterRent, 0)]\<rparr>)"
proof -
  have M: "nat (max_months (small_cfg 5000)) = Suc 0" by (simp add: small_cfg_def)
  have P: "build_pools [small_event [''S_RENT_DUE'']] = [(''job'', [small_event [''S_RENT_DUE'']])]"
    by (simp add: build_pools_def small_event_def)
  show ?thesis by (simp add: simulate_run_def setup_skip P M body_skip)
qed

lemma setup_poor:
  "run_setup (const_gen 0) small_states (small_cfg (- 100)) 0 =
     Inr \<lparr>st_stats = \<lparr>money = - 100, health = 50, stress = 50, family = 50, friendship = 50\<rparr>,
        st_active = [(''S_RENT_DUE'', None), (''S_PAYCHECK'', None)],
        st_arrears = 0, st_seen = [], st_recent = [], st_counts = [], st_gen = 0,
        st_drawn = [], st_evals = []\<rparr>"
  by (simp add: run_setup_def small_index eval_defs)



lemma draw_poor:
  "draw_event (const_gen 0) [(''job'', [small_event []])]
     [(''S_RENT_DUE'', None), (''S_PAYCHECK'', None)] [] [] (small_cfg (- 100)) state_tag_mult 0
   = Inr (small_event [], 2)"
  by (simp add: draw_event_def tag_weights_small weighted_choice_def weighted_pick_def
        const_gen_def small_event_def event_weight_def recent_ids_def small_cfg_def)

lemma pick_poor:
  "random_choice (const_gen 0) (choices (small_event [])) 2 = Inr (small_choice [], 3)"
  by (simp add: random_choice_def const_gen_def small_event_def)

lemma choice_poor:
  "apply_choice \<lparr>money = 2900, health = 50, stress = 50, family = 50, friendship = 50\<rparr> (small_choice [])
     [(''S_RENT_DUE'', None), (''S_PAYCHECK'', None)] 0 (small_cfg (- 100)) 0 (state_index_of small_states)
   = Inr (\<lparr>money = 2900, health = 50, stress = 50, family = 50, friendship = 50\<rparr>,
          [(''S_RENT_DUE'', None), (''S_PAYCHECK'', None)], 0)"
  by (simp add: apply_choice_def choice_effects_def small_choice_def scale_gain_def eval_defs)

lemma turn_poor:
  "turn (const_gen 0) [(''job'', [small_event []])] (small_cfg (- 100)) (state_index_of small_states) 0
     \<lparr>st_stats = \<lparr>money = 2900, health = 50, stress = 50, family = 50, friendship = 50\<rparr>,
        st_active = [(''S_RENT_DUE'', None), (''S_PAYCHECK'', None)],
        st_arrears = 0, st_seen = [], st_recent = [], st_counts = [], st_gen = 0,
        st_drawn = [], st_evals = []\<rparr>
   = Inr \<lparr>st_stats = \<lparr>money = 2900, health = 50, stress = 50, family = 50, friendship = 50\<rparr>,
        st_active = [(''S_RENT_DUE'', None), (''S_PAYCHECK'', None)],
        st_arrears = 0, st_seen = [(''E_JOB'', 1)], st_recent = [''E_JOB''],
        st_counts = [(''E_JOB'', 1)], st_gen = 3, st_drawn = [''E_JOB''],
        st_evals = []\<rparr>"
  by (simp add: turn_def draw_poor pick_poor choice_poor bump_def push_recent_def,
      simp add: small_event_def)

lemma rent_poor:
  "month_end_rent \<lparr>money = 2900, health = 50, stress = 50, family = 50, friendship = 50\<rparr>
     [(''S_RENT_DUE'', None), (''S_PAYCHECK'', None)] (small_cfg (- 100)) 0 (state_index_of small_states)
   = Inr (\<lparr>money = 1900, health = 50, stress = 49, family = 50, friendship = 50\<rparr>,
          [(''S_PAYCHECK'', None), (''S_RENT_DUE'', None)])"
  by (simp add: month_end_rent_def small_index eval_defs)



subsection \<open>The rent cycle\<close>

text \<open>
  Claim C4, as stated: a rent-due condition is active at the start of every month-end rent
  check, and each check performs exactly one of payment and arrears installation, never
  neither. In the run below the only choice removes the rent-due condition; at the rent
  check money is 8000 (5000 plus the paycheck), the rent of 1000 is not deducted and no
  arrears condition is installed.
\<close>

theorem rent_check_neither_counterexample:
  "simulate_run (const_gen 0) [small_event [''S_RENT_DUE'']] small_states (small_cfg 5000) 0
   = Inr (True,
       \<lparr>st_stats = \<lparr>money = 8000, health = 50, stress = 50, family = 50, friendship = 50\<rparr>,
        st_active = [(''S_PAYCHECK'', None), (''S_RENT_DUE'', None)],
        st_arrears = 0, st_seen = [(''E_JOB'', 1)], st_recent = [''E_JOB''],
        st_counts = [(''E_JOB'', 1)], st_gen = 3, st_drawn = [''E_JOB''],
        st_evals = [(AfterChoice, 0), (AfterRent, 0)]\<rparr>)"
  by (rule run_skip)

text \<open>
  Claim C4, amended: when a rent-due condition is active at the start of a month-end rent
  check, the check performs exactly one of payment and arrears installation: if money
  covers the cost-scaled rent it is deducted with a stress relief of 1 (clamped), the
  rent-due condition is removed and no arrears condition is installed; otherwise the stats
  are unchanged (no partial payment), the rent-due condition is removed and an arrears
  condition installed. When no rent-due condition is active (a choice may have removed it)
  the check performs neither. In every case a rent-due condition is installed at the end.
  (The registry holds both condition ids and the cost factor is a real number.)
\<close>

theorem month_end_rent_cases:
  assumes "cost_factor month c = Some cf"
    and "state_index_of states ''S_RENT_DUE'' = Some due"
    and "state_index_of states ''S_RENT_ARREARS'' = Some arr"
  shows "\<exists>s' act'.
     month_end_rent s act c month (state_index_of states) = Inr (s', act')
     \<and> has_state act' ''S_RENT_DUE''
     \<and> (if has_state act ''S_RENT_DUE''
        then (if py_round (rent c * cf) \<le> money s
              then s' = s\<lparr>money := money s - py_round (rent c * cf),
                          stress := clamp (stress s - 1) 0 100\<rparr>
                   \<and> act' = add_state (remove_state act ''S_RENT_DUE'') due
                   \<and> has_state act' ''S_RENT_ARREARS'' = has_state act ''S_RENT_ARREARS''
              else s' = s
                   \<and> act' = add_state (add_state (remove_state act ''S_RENT_DUE'') arr) due
                   \<and> has_state act' ''S_RENT_ARREARS'')
        else s' = s \<and> act' = add_state act due
             \<and> has_state act' ''S_RENT_ARREARS'' = has_state act ''S_RENT_ARREARS'')"
proof -
  have d: "sid due = ''S_RENT_DUE''" and a: "sid arr = ''S_RENT_ARREARS''"
    using assms(2,3) state_index_of_sid by blast+
  show ?thesis
    using assms d a
    by (simp add: month_end_rent_def round_scaled_def apply_effects_rent has_state_add
          has_state_remove)
qed

theorem month_end_rent_cases_witness:
  "cost_factor 0 (small_cfg (- 100)) = Some 1
   \<and> state_index_of small_states ''S_RENT_DUE'' = Some rent_due_sdef
   \<and> state_index_of small_states ''S_RENT_ARREARS'' = Some arrears_sdef
   \<and> month_end_rent \<lparr>money = 2900, health = 50, stress = 50, family = 50, friendship = 50\<rparr>
         [(''S_RENT_DUE'', None), (''S_PAYCHECK'', None)] (small_cfg (- 100)) 0
         (state_index_of small_states)
       = Inr (\<lparr>money = 1900, health = 50, stress = 49, family = 50, friendship = 50\<rparr>,
              [(''S_PAYCHECK'', None), (''S_RENT_DUE'', None)])"
  using month_end_rent_cases
          [of 0 "small_cfg (- 100)" 1 small_states rent_due_sdef arrears_sdef
              "\<lparr>money = 2900, health = 50, stress = 50, family = 50, friendship = 50\<rparr>"
              "[(''S_RENT_DUE'', None), (''S_PAYCHECK'', None)]"]
  by (simp add: small_index rent_poor, simp add: eval_defs)

section \<open>The run and its termination checks\<close>
















subsection \<open>A concrete run that fails at its first check\<close>









subsection \<open>Termination at the first evaluation that reaches the threshold\<close>



subsection \<open>The first check of a run\<close>





section \<open>Event pools\<close>

lemma build_pools_snoc:
  "build_pools (evs @ [ev]) =
     AList.update (primary_tag ev)
       ((case map_of (build_pools evs) (primary_tag ev) of None \<Rightarrow> [] | Some xs \<Rightarrow> xs) @ [ev])
       (build_pools evs)"
  by (simp add: build_pools_def)

lemma map_of_build_pools:
  "map_of (build_pools evs) t =
     (if filter (\<lambda>ev. primary_tag ev = t) evs = [] then None
      else Some (filter (\<lambda>ev. primary_tag ev = t) evs))"
proof (induction evs rule: rev_induct)
  case Nil
  show ?case by (simp add: build_pools_def)
next
  case (snoc ev evs)
  show ?case
  proof (cases "primary_tag ev = t")
    case True
    then show ?thesis by (simp add: build_pools_snoc update_conv' snoc.IH)
  next
    case False
    then show ?thesis by (simp add: build_pools_snoc update_conv' snoc.IH)
  qed
qed

text \<open>
  Claim C7, as stated: when a tag with nonzero weight has an empty event pool the program
  fails at startup validation, before any draw. The catalog below has one event, tagged
  job; the seven other tags have weight at least 0.75 and no event. The run draws an
  event, applies its choice and succeeds.
\<close>

theorem empty_pool_counterexample:
  "simulate_one (const_gen 0) [small_event [''S_RENT_DUE'']] small_states (small_cfg 5000) 0 7
     = Inr ((True, 1, [(''E_JOB'', 1)]), 3)"
  by (simp add: simulate_one_def run_skip)

text \<open>
  Claim C7, amended: the program has no startup validation. The pools hold, for each tag
  that at least one event carries, the events of that tag in catalog order, and nothing
  for any other tag. A draw whose tag stage selects a tag without events fails at that
  draw with KeyError, before the weighted choice among events is made; otherwise the
  weighted choice among events is made on the (non-empty) list of the events of that tag.
  So the draw among events is never invoked with an empty candidate list.
\<close>

theorem draw_event_pools:
  assumes "weighted_choice R (map fst (tag_weights act stm)) (map snd (tag_weights act stm)) g
             = Inr (tag, g')"
  shows "draw_event R (build_pools events) act seen_counts recent_list c stm g =
           (if filter (\<lambda>ev. primary_tag ev = tag) events = [] then Inl KeyError
            else weighted_choice R (filter (\<lambda>ev. primary_tag ev = tag) events)
                   (map (event_weight c seen_counts recent_list)
                      (filter (\<lambda>ev. primary_tag ev = tag) events)) g')
         \<and> (\<forall>t pool. map_of (build_pools events) t = Some pool \<longrightarrow> pool \<noteq> [])"
  using assms by (simp add: draw_event_def Let_def map_of_build_pools)

theorem draw_event_pools_witness:
  "weighted_choice (const_gen (1 / 2))
       (map fst (tag_weights [(''S_RENT_DUE'', None), (''S_PAYCHECK'', None)] state_tag_mult))
       (map snd (tag_weights [(''S_RENT_DUE'', None), (''S_PAYCHECK'', None)] state_tag_mult)) 0
     = Inr (''health'', 1)
   \<and> draw_event (const_gen (1 / 2)) (build_pools [small_event []])
         [(''S_RENT_DUE'', None), (''S_PAYCHECK'', None)] [] [] (small_cfg 5000) state_tag_mult 0
       = Inl KeyError"
proof -
  have w: "weighted_choice (const_gen (1 / 2))
       (map fst (tag_weights [(''S_RENT_DUE'', None), (''S_PAYCHECK'', None)] state_tag_mult))
       (map snd (tag_weights [(''S_RENT_DUE'', None), (''S_PAYCHECK'', None)] state_tag_mult)) 0
     = Inr (''health'', 1)"
    by (simp add: tag_weights_small weighted_choice_def weighted_pick_def const_gen_def)
  have "filter (\<lambda>ev. primary_tag ev = ''health'') [small_event []] = []"
    by (simp add: small_event_def)
  with draw_event_pools[OF w, of "[small_event []]" "[]" "[]" "small_cfg 5000"] w
  show ?thesis by simp
qed

section \<open>Anti-repeat weights and the draw history\<close>

lemma push_recent_drop:
  "push_recent (drop (length d - 40) d) k = drop (length (d @ [k]) - 40) (d @ [k])"
proof (cases "40 \<le> length d")
  case True
  then have e: "Suc (length d - 40) = length d - 39" "length d - (length d - 40) = 40"
    by arith+
  show ?thesis using True by (simp add: push_recent_def Let_def e)
next
  case False
  then show ?thesis by (simp add: push_recent_def Let_def)
qed

lemma map_of_bump:
  "map_of (bump m k) k' =
     (if k' = k then Some ((case map_of m k of None \<Rightarrow> 0 | Some n \<Rightarrow> n) + 1) else map_of m k')"
  by (simp add: bump_def update_conv')

lemma turn_fields:
  assumes "turn R pools c idx month st = Inr st'"
  shows "\<exists>k. st_seen st' = bump (st_seen st) k \<and> st_recent st' = push_recent (st_recent st) k
          \<and> st_drawn st' = st_drawn st @ [k]"
  using assms by (auto simp: turn_def split: sum.splits prod.splits)

lemma turn_tracked:
  assumes "tracked st" "turn R pools c idx month st = Inr st'"
  shows "tracked st'"
proof -
  from turn_fields[OF assms(2)] obtain k where
    k: "st_seen st' = bump (st_seen st) k" "st_recent st' = push_recent (st_recent st) k"
       "st_drawn st' = st_drawn st @ [k]" by blast
  from assms(1) have r: "st_recent st = drop (length (st_drawn st) - 40) (st_drawn st)"
    and s: "\<And>x. map_of (st_seen st) x =
                (if count_list (st_drawn st) x = 0 then None
                 else Some (count_list (st_drawn st) x))"
    by (simp_all add: tracked_def)
  have "st_recent st' = drop (length (st_drawn st') - 40) (st_drawn st')"
    using k(2,3) r push_recent_drop[of "st_drawn st" k] by simp
  moreover have "\<And>x. map_of (st_seen st') x =
                (if count_list (st_drawn st') x = 0 then None
                 else Some (count_list (st_drawn st') x))"
    by (simp add: k(1,3) map_of_bump s)
  ultimately show ?thesis by (simp add: tracked_def)
qed

lemma tracked_fields:
  "st_seen st' = st_seen st \<Longrightarrow> st_recent st' = st_recent st \<Longrightarrow> st_drawn st' = st_drawn st
     \<Longrightarrow> tracked st' = tracked st"
  by (simp add: tracked_def)

lemma check_tracked:
  "check_strikes p c st = (hit, st') \<Longrightarrow> tracked st' = tracked st"
  by (auto simp: check_strikes_def Let_def tracked_def)

lemma turn_loop_tracked:
  "tracked st \<Longrightarrow> turn_loop R pools c idx month n st = Inr (ok, st') \<Longrightarrow> tracked st'"
proof (induction n arbitrary: st)
  case 0
  then show ?case by simp
next
  case (Suc n)
  from Suc.prems(2) obtain st1 where t: "turn R pools c idx month st = Inr st1"
    by (auto split: sum.splits)
  obtain hit st2 where k: "check_strikes AfterChoice c st1 = (hit, st2)"
    by (cases "check_strikes AfterChoice c st1")
  have t2: "tracked st2" using turn_tracked[OF Suc.prems(1) t] check_tracked[OF k] by simp
  show ?case
  proof (cases hit)
    case True
    with Suc.prems(2) t k have "st' = st2" by auto
    with t2 show ?thesis by simp
  next
    case False
    with Suc.prems(2) t k have "turn_loop R pools c idx month n st2 = Inr (ok, st')" by auto
    from Suc.IH[OF t2 this] show ?thesis .
  qed
qed

lemma month_body_tracked:
  assumes "tracked st" "month_body R pools c idx month st = Inr (ok, st')"
  shows "tracked st'"
proof -
  from assms(2) obtain s2 act2 ctr2 where
    m: "apply_state_monthly (monthly_passive (st_stats st) c) (st_active st) (st_arrears st)
          c month idx = Inr (s2, act2, ctr2)"
    by (auto simp: month_body_def Let_def split: sum.splits)
  let ?st0 = "st\<lparr>st_stats := s2, st_active := act2, st_arrears := ctr2\<rparr>"
  from assms(2) m obtain ok3 st3 where
    t: "turn_loop R pools c idx month (nat (turns_per_month c)) ?st0 = Inr (ok3, st3)"
    by (auto simp: month_body_def Let_def split: sum.splits)
  have "tracked ?st0" using assms(1) tracked_fields[of ?st0 st] by simp
  from turn_loop_tracked[OF this t] have t3: "tracked st3" .
  show ?thesis
  proof (cases ok3)
    case False
    with assms(2) m t have "st' = st3" by (auto simp: month_body_def Let_def)
    with t3 show ?thesis by simp
  next
    case True
    with assms(2) m t obtain s4 act4 where
      r: "month_end_rent (st_stats st3) (st_active st3) c month idx = Inr (s4, act4)"
      by (auto simp: month_body_def Let_def split: sum.splits)
    let ?st4 = "st3\<lparr>st_stats := s4, st_active := act4\<rparr>"
    obtain hit st5 where k: "check_strikes AfterRent c ?st4 = (hit, st5)"
      by (cases "check_strikes AfterRent c ?st4")
    from assms(2) m t True r k have "st' = st5" by (auto simp: month_body_def Let_def)
    moreover have "tracked ?st4" using t3 tracked_fields[of ?st4 st3] by simp
    ultimately show ?thesis using check_tracked[OF k] by simp
  qed
qed

lemma month_loop_tracked:
  "tracked st \<Longrightarrow> month_loop R pools c idx n month st = Inr (ok, st') \<Longrightarrow> tracked st'"
proof (induction n arbitrary: st month)
  case 0
  then show ?case by simp
next
  case (Suc n)
  from Suc.prems(2) obtain ok1 st1 where
    b: "month_body R pools c idx month st = Inr (ok1, st1)"
    by (auto split: sum.splits)
  note t1 = month_body_tracked[OF Suc.prems(1) b]
  show ?case
  proof (cases ok1)
    case True
    with Suc.prems(2) b have "month_loop R pools c idx n (month + 1) st1 = Inr (ok, st')"
      by simp
    from Suc.IH[OF t1 this] show ?thesis .
  next
    case False
    with Suc.prems(2) b have "st' = st1" by auto
    with t1 show ?thesis by simp
  qed
qed

lemma run_setup_tracked: "run_setup R states c seed = Inr st \<Longrightarrow> tracked st"
  by (auto simp: run_setup_def Let_def tracked_def split: option.splits)

lemma simulate_run_tracked:
  assumes "simulate_run R events states c seed = Inr (ok, st)"
  shows "tracked st"
proof -
  from assms obtain st0 where s0: "run_setup R states c seed = Inr st0"
    and l: "month_loop R (build_pools events) c (state_index_of states) (nat (max_months c)) 0 st0
              = Inr (ok, st)"
    by (auto simp: simulate_run_def split: sum.splits)
  from month_loop_tracked[OF run_setup_tracked[OF s0] l] show ?thesis .
qed

lemma recent_ids_tracked:
  "recent_ids (drop (length d - 40) d) w =
     (if 0 < w then drop (length d - min (nat w) 40) d else [])"
proof (cases "0 < w")
  case False
  then show ?thesis by (simp add: recent_ids_def)
next
  case True
  have e: "length (drop (length d - 40) d) - nat w + (length d - 40)
             = length d - min (nat w) 40"
    unfolding length_drop by arith
  have "recent_ids (drop (length d - 40) d) w
          = drop (length (drop (length d - 40) d) - nat w) (drop (length d - 40) d)"
    using True by (simp only: recent_ids_def if_True)
  also have "\<dots> = drop (length (drop (length d - 40) d) - nat w + (length d - 40)) d"
    by (simp only: drop_drop)
  also have "\<dots> = drop (length d - min (nat w) 40) d"
    by (simp only: e)
  finally show ?thesis using True by simp
qed

lemma event_weight_tracked:
  assumes "tracked st"
  shows "event_weight c (st_seen st) (st_recent st) ev = drawn_weight c (st_drawn st) ev"
proof -
  from assms have r: "st_recent st = drop (length (st_drawn st) - 40) (st_drawn st)"
    and s: "map_of (st_seen st) (eid ev) =
                (if count_list (st_drawn st) (eid ev) = 0 then None
                 else Some (count_list (st_drawn st) (eid ev)))"
    by (simp_all add: tracked_def)
  show ?thesis
    unfolding event_weight_def drawn_weight_def r recent_ids_tracked s
    by (simp add: Let_def)
qed

text \<open>
  Claim C8, as stated: for every recency window N the penalty applies exactly when the id
  is among the last N drawn ids. The run keeps only the 40 most recent ids (lines 257 and
  258). With N = 41, after the draws E0, then 40 times E1, the list kept is 40 times E1:
  E0 is among the last 41 drawn ids, yet its weight is the unpenalised 1 / (1 + 1) = 1/2
  (the penalty factor is 1/2).
\<close>

theorem recency_window_counterexample:
  "foldl push_recent [] (''E0'' # replicate 40 ''E1'') = replicate 40 ''E1''
   \<and> ''E0'' \<in> set (drop (length (''E0'' # replicate 40 ''E1'') - 41)
                       (''E0'' # replicate 40 ''E1''))
   \<and> event_weight ((small_cfg 5000)\<lparr>recent_window := 41\<rparr>) [(''E0'', 1), (''E1'', 40)]
         (replicate 40 ''E1'')
         \<lparr>eid = ''E0'', primary_tag = ''job'', base_weight = None, choices = []\<rparr>
       = 1 / 2"
proof -
  have "foldl push_recent [] (''E0'' # replicate 40 ''E1'') = replicate 40 ''E1''"
    by code_simp
  moreover have "''E0'' \<in> set (drop (length (''E0'' # replicate 40 ''E1'') - 41)
                       (''E0'' # replicate 40 ''E1''))"
    by simp
  moreover have "event_weight ((small_cfg 5000)\<lparr>recent_window := 41\<rparr>)
         [(''E0'', 1), (''E1'', 40)] (replicate 40 ''E1'')
         \<lparr>eid = ''E0'', primary_tag = ''job'', base_weight = None, choices = []\<rparr>
       = 1 / 2"
    by (simp add: event_weight_def recent_ids_def small_cfg_def)
  ultimately show ?thesis by blast
qed

text \<open>
  Claim C8, amended: for every configured recency window N and every per-run draw
  history, a candidate event's weight is base_weight / (1 + times_seen_this_run)^beta,
  multiplied by the recency penalty factor exactly when N is positive and the event's id
  appears among the last min(N, 40) drawn event ids of the current run. (The seen counters
  and the recency list agree with the draw history after Setup, after every turn and at
  the end of the run.)
\<close>

theorem recency_penalty_window:
  "(run_setup R states c seed = Inr st0 \<longrightarrow> tracked st0)
   \<and> (tracked st \<and> turn R pools c idx month st = Inr st' \<longrightarrow> tracked st')
   \<and> (simulate_run R events states c seed = Inr (ok, st1) \<longrightarrow> tracked st1)
   \<and> (tracked st \<longrightarrow>
        event_weight c (st_seen st) (st_recent st) ev = drawn_weight c (st_drawn st) ev)"
  using run_setup_tracked[of R states c seed st0] turn_tracked[of st R pools c idx month st']
        simulate_run_tracked[of R events states c seed ok st1] event_weight_tracked[of st c ev]
  by simp

theorem recency_penalty_window_witness:
  "run_setup (const_gen 0) small_states (small_cfg (- 100)) 0
     = Inr \<lparr>st_stats = \<lparr>money = - 100, health = 50, stress = 50, family = 50, friendship = 50\<rparr>,
            st_active = [(''S_RENT_DUE'', None), (''S_PAYCHECK'', None)],
            st_arrears = 0, st_seen = [], st_recent = [], st_counts = [], st_gen = 0,
            st_drawn = [], st_evals = []\<rparr>
   \<and> tracked (\<lparr>st_stats = \<lparr>money = 2900, health = 50, stress = 50, family = 50, friendship = 50\<rparr>,
            st_active = [(''S_RENT_DUE'', None), (''S_PAYCHECK'', None)],
            st_arrears = 0, st_seen = [], st_recent = [], st_counts = [], st_gen = 0,
            st_drawn = [], st_evals = []\<rparr> :: nat sim)
   \<and> tracked (\<lparr>st_stats = \<lparr>money = 2900, health = 50, stress = 50, family = 50, friendship = 50\<rparr>,
            st_active = [(''S_RENT_DUE'', None), (''S_PAYCHECK'', None)],
            st_arrears = 0, st_seen = [(''E_JOB'', 1)], st_recent = [''E_JOB''],
            st_counts = [(''E_JOB'', 1)], st_gen = 3, st_drawn = [''E_JOB''],
            st_evals = []\<rparr> :: nat sim)
   \<and> event_weight (small_cfg (- 100)) [(''E_JOB'', 1)] [''E_JOB''] (small_event [])
       = drawn_weight (small_cfg (- 100)) [''E_JOB''] (small_event [])
   \<and> drawn_weight (small_cfg (- 100)) [''E_JOB''] (small_event []) = 1 / 4"
proof -
  let ?a = "\<lparr>st_stats = \<lparr>money = 2900, health = 50, stress = 50, family = 50, friendship = 50\<rparr>,
            st_active = [(''S_RENT_DUE'', None), (''S_PAYCHECK'', None)],
            st_arrears = 0, st_seen = [], st_recent = [], st_counts = [], st_gen = 0,
            st_drawn = [], st_evals = []\<rparr> :: nat sim"
  let ?b = "\<lparr>st_stats = \<lparr>money = 2900, health = 50, stress = 50, family = 50, friendship = 50\<rparr>,
            st_active = [(''S_RENT_DUE'', None), (''S_PAYCHECK'', None)],
            st_arrears = 0, st_seen = [(''E_JOB'', 1)], st_recent = [''E_JOB''],
            st_counts = [(''E_JOB'', 1)], st_gen = 3, st_drawn = [''E_JOB''],
            st_evals = []\<rparr> :: nat sim"
  have a: "tracked ?a" by (simp add: tracked_def)
  have d: "drawn_weight (small_cfg (- 100)) [''E_JOB''] (small_event []) = 1 / 4"
    by (simp add: drawn_weight_def small_cfg_def small_event_def)
  have ab: "tracked ?b"
    using recency_penalty_window
            [where R = "const_gen 0" and c = "small_cfg (- 100)" and st = ?a and st' = ?b
               and pools = "[(''job'', [small_event []])]"
               and idx = "state_index_of small_states" and month = 0]
          a turn_poor
    by blast
  have "event_weight (small_cfg (- 100)) (st_seen ?b) (st_recent ?b) (small_event [])
          = drawn_weight (small_cfg (- 100)) (st_drawn ?b) (small_event [])"
    using recency_penalty_window
            [where c = "small_cfg (- 100)" and st = ?b and ev = "small_event []"]
          ab
    by blast
  then have "event_weight (small_cfg (- 100)) [(''E_JOB'', 1)] [''E_JOB''] (small_event [])
          = drawn_weight (small_cfg (- 100)) [''E_JOB''] (small_event [])"
    by simp
  with setup_poor a ab d show ?thesis by blast
qed

section \<open>The two scaling paths\<close>

lemma update_as_map:
  "distinct (map fst eff) \<Longrightarrow> map_of eff k = Some v \<Longrightarrow>
   AList.update k v' eff = map (\<lambda>kv. if fst kv = k then (k, v') else kv) eff"
proof (induction eff)
  case Nil
  then show ?case by simp
next
  case (Cons a eff)
  obtain a1 a2 where a: "a = (a1, a2)" by (cases a)
  show ?case
  proof (cases "a1 = k")
    case True
    with Cons.prems(1) a have "k \<notin> fst ` set eff" by auto
    then have "map (\<lambda>kv. if fst kv = k then (k, v') else kv) eff = eff"
      by (intro map_idI) auto
    with True a show ?thesis by simp
  next
    case False
    with Cons a show ?thesis by simp
  qed
qed

lemma distinct_value:
  "distinct (map fst eff) \<Longrightarrow> map_of eff k = Some v \<Longrightarrow> kv \<in> set eff \<Longrightarrow> fst kv = k
     \<Longrightarrow> snd kv = v"
  by (cases kv) (auto dest: map_of_SomeD simp: eq_key_imp_eq_value)

lemma scale_gain_map:
  assumes "distinct (map fst eff)"
  shows "scale_gain s c eff k = map (scaled_entry s c k) eff"
proof (cases "map_of eff k")
  case None
  then have "k \<notin> fst ` set eff" by (simp add: map_of_eq_None_iff)
  then have "map (scaled_entry s c k) eff = eff"
    by (intro map_idI) (auto simp: scaled_entry_def)
  with None show ?thesis by (simp add: scale_gain_def)
next
  case (Some v)
  note v = distinct_value[OF assms Some]
  show ?thesis
  proof (cases "0 < v \<and> get_stat k s \<noteq> None")
    case False
    have "map (scaled_entry s c k) eff = eff"
    proof (intro map_idI)
      fix kv assume "kv \<in> set eff"
      with v[of kv] False show "scaled_entry s c k kv = kv"
        by (auto simp: scaled_entry_def)
    qed
    with Some False show ?thesis by (auto simp: scale_gain_def)
  next
    case True
    then obtain x where x: "get_stat k s = Some x" by auto
    have "map (scaled_entry s c k) eff
            = map (\<lambda>kv. if fst kv = k
                          then (k, py_round (effective_gain (of_int v) x c)) else kv) eff"
    proof (intro map_cong refl)
      fix kv assume "kv \<in> set eff"
      with v[of kv] True x
      show "scaled_entry s c k kv
              = (if fst kv = k then (k, py_round (effective_gain (of_int v) x c)) else kv)"
        by (auto simp: scaled_entry_def)
    qed
    with Some True x update_as_map[OF assms Some] show ?thesis
      by (simp add: scale_gain_def)
  qed
qed

lemma fst_scaled_entry [simp]: "fst (scaled_entry s c k kv) = fst kv"
  by (auto simp: scaled_entry_def split: option.splits)

lemma distinct_scaled:
  "distinct (map fst eff) \<Longrightarrow> distinct (map fst (map (scaled_entry s c k) eff))"
  by (simp add: comp_def)

lemma scale_gains_map:
  assumes "distinct (map fst eff)"
  shows "foldl (scale_gain s c) eff [''health'', ''family'', ''friendship'']
           = map (scaled_entry s c ''friendship'' \<circ> scaled_entry s c ''family''
                    \<circ> scaled_entry s c ''health'') eff"
proof -
  let ?e1 = "map (scaled_entry s c ''health'') eff"
  let ?e2 = "map (scaled_entry s c ''family'') ?e1"
  have d1: "distinct (map fst ?e1)" using assms by (rule distinct_scaled)
  have d2: "distinct (map fst ?e2)" using d1 by (rule distinct_scaled)
  have "foldl (scale_gain s c) eff [''health'', ''family'', ''friendship'']
          = scale_gain s c (scale_gain s c (scale_gain s c eff ''health'') ''family'')
              ''friendship''"
    by simp
  also have "\<dots> = map (scaled_entry s c ''friendship'') ?e2"
    by (simp only: scale_gain_map[OF assms] scale_gain_map[OF d1] scale_gain_map[OF d2])
  finally show ?thesis by simp
qed

lemma monthly_prescale_scaled:
  assumes "\<not> has_state act ''S_HIGH_INTEREST_LOAN'' \<or> fst kv \<noteq> ''money'' \<or> snd kv \<le> 0"
  shows "monthly_prescale s act c kv
           = (scaled_entry s c ''friendship'' \<circ> scaled_entry s c ''family''
                \<circ> scaled_entry s c ''health'') kv"
  using assms
  by (cases kv) (auto simp: monthly_prescale_def scaled_entry_def get_stat.simps)

lemma map_of_scaled_other:
  assumes "k' \<noteq> k"
  shows "map_of (map (scaled_entry s c k) eff) k' = map_of eff k'"
  using assms by (induction eff) (auto simp: scaled_entry_def split: option.splits)

text \<open>
  Claim C5. The immediate path and the monthly path are meant to give identical rounded
  results for the same base value. The monthly path rounds the loan penalty before it
  applies the multiplier and rounds again. With a high-interest loan active, a base money
  delta of 3 and a positive-money multiplier of 2 in month 0 (wage factor 1), the choice
  path rounds once, 3 * 2 * 1 * 0.85 = 5.1 to 5; the monthly path rounds 3 * 0.85 = 2.55
  to 3 first and then 3 * 2 * 1 to 6.
\<close>

theorem scaling_paths_differ:
  "choice_effects \<lparr>money = 0, health = 50, stress = 50, family = 50, friendship = 50\<rparr>
       \<lparr>effects = [(''money'', 3)], action = None, add_states = [], remove_states = []\<rparr>
       [(''S_HIGH_INTEREST_LOAN'', None)] ((small_cfg 5000)\<lparr>pos_money_mult := 2\<rparr>) 0
     = Inr [(''money'', 5)]
   \<and> monthly_effects \<lparr>money = 0, health = 50, stress = 50, family = 50, friendship = 50\<rparr>
       [(''money'', 3)]
       [(''S_HIGH_INTEREST_LOAN'', None)] ((small_cfg 5000)\<lparr>pos_money_mult := 2\<rparr>) 0
     = Inr [(''money'', 6)]"
proof -
  have a: "py_round (51 / 10) = 5" and b: "py_round (51 / 20) = 3"
    by (simp_all add: py_round_def)
  show ?thesis
    by (simp add: choice_effects_def monthly_effects_def monthly_prescale_def scale_gain_def
          has_state_def wage_factor_def cost_factor_def float_pow_month_def round_scaled_def
          small_cfg_def Let_def a b)
qed

text \<open>
  Where the two paths do agree: for every effect mapping (a dictionary: distinct keys)
  that is not charged rent by a special action, every month and every set of active
  conditions, the immediate choice path and the recurring monthly path compute the same
  effective deltas, with identical rounded results and identical errors, whenever no
  high-interest loan is active or the mapping has no positive money delta.
\<close>

theorem scaling_paths_agree:
  assumes "distinct (map fst (effects ch))" and "action ch \<noteq> Some ''PAY_RENT''"
    and "\<not> has_state act ''S_HIGH_INTEREST_LOAN''
         \<or> (\<forall>m. (''money'', m) \<in> set (effects ch) \<longrightarrow> m \<le> 0)"
  shows "choice_effects s ch act c month = monthly_effects s (effects ch) act c month"
proof -
  let ?g = "scaled_entry s c ''friendship'' \<circ> scaled_entry s c ''family''
              \<circ> scaled_entry s c ''health''"
  let ?e2 = "map ?g (effects ch)"
  have p: "map (monthly_prescale s act c) (effects ch) = ?e2"
  proof (intro map_cong refl)
    fix kv assume kv: "kv \<in> set (effects ch)"
    have "\<not> has_state act ''S_HIGH_INTEREST_LOAN'' \<or> fst kv \<noteq> ''money'' \<or> snd kv \<le> 0"
      using assms(3) kv by (cases kv) auto
    then show "monthly_prescale s act c kv = ?g kv" by (rule monthly_prescale_scaled)
  qed
  have f: "foldl (scale_gain s c) (effects ch) [''health'', ''family'', ''friendship''] = ?e2"
    using assms(1) by (rule scale_gains_map)
  have "map_of ?e2 ''money'' = map_of (effects ch) ''money''"
    using map_of_scaled_other[of "''money''" "''friendship''" s c]
          map_of_scaled_other[of "''money''" "''family''" s c]
          map_of_scaled_other[of "''money''" "''health''" s c]
    by (simp flip: map_map)
  then have key: "\<And>m. has_state act ''S_HIGH_INTEREST_LOAN'' \<Longrightarrow> map_of ?e2 ''money'' = Some m
                   \<Longrightarrow> m \<le> 0"
    using assms(3) by (auto dest: map_of_SomeD)
  have c1: "choice_effects s ch act c month =
      (case (case map_of ?e2 ''money'' of
               None \<Rightarrow> Inr ?e2
             | Some m \<Rightarrow>
                 (if 0 < m
                  then (case wage_factor month c of
                          None \<Rightarrow> Inl TypeError
                        | Some w \<Rightarrow>
                            (let x = of_int m * pos_money_mult c * w;
                                 x = (if has_state act ''S_HIGH_INTEREST_LOAN''
                                      then x * (85 / 100) else x)
                             in Inr (AList.update ''money'' (py_round x) ?e2)))
                  else (case round_scaled (of_int m * neg_money_mult c) (cost_factor month c) of
                          Inl e \<Rightarrow> Inl e
                        | Inr m' \<Rightarrow> Inr (AList.update ''money'' m' ?e2)))) of
         Inl e \<Rightarrow> Inl e
       | Inr eff \<Rightarrow>
           (case map_of eff ''stress'' of
              None \<Rightarrow> Inr eff
            | Some v \<Rightarrow>
                Inr (AList.update ''stress'' (py_round (of_int v * stress_mult c)) eff)))"
    using assms(2)
    by (simp add: choice_effects_def Let_def f del: foldl_Cons foldl_Nil
          cong: sum.case_cong option.case_cong if_cong)
  have c2: "monthly_effects s (effects ch) act c month =
      (case (case map_of ?e2 ''money'' of
               None \<Rightarrow> Inr ?e2
             | Some m \<Rightarrow>
                 (if 0 < m
                  then (case round_scaled (of_int m * pos_money_mult c) (wage_factor month c) of
                          Inl e \<Rightarrow> Inl e
                        | Inr m' \<Rightarrow> Inr (AList.update ''money'' m' ?e2))
                  else (case round_scaled (of_int m * neg_money_mult c) (cost_factor month c) of
                          Inl e \<Rightarrow> Inl e
                        | Inr m' \<Rightarrow> Inr (AList.update ''money'' m' ?e2)))) of
         Inl e \<Rightarrow> Inl e
       | Inr eff \<Rightarrow>
           (case map_of eff ''stress'' of
              None \<Rightarrow> Inr eff
            | Some v \<Rightarrow>
                Inr (AList.update ''stress'' (py_round (of_int v * stress_mult c)) eff)))"
    by (simp add: monthly_effects_def Let_def p del: map_map List.map.comp
          cong: sum.case_cong option.case_cong if_cong)
  show ?thesis
  proof (cases "map_of ?e2 ''money''")
    case None
    then show ?thesis unfolding c1 c2 by simp
  next
    case (Some m)
    show ?thesis
    proof (cases "0 < m")
      case False
      with Some show ?thesis unfolding c1 c2 by simp
    next
      case True
      with key[OF _ Some] have "\<not> has_state act ''S_HIGH_INTEREST_LOAN''" by fastforce
      with Some True show ?thesis
        unfolding c1 c2 by (cases "wage_factor month c") (simp_all add: round_scaled_def)
    qed
  qed
qed

theorem scaling_paths_agree_witness:
  "distinct (map fst (effects \<lparr>effects = [(''health'', 10), (''money'', 100), (''stress'', 4)],
        action = None, add_states = [], remove_states = []\<rparr>))
   \<and> \<not> has_state [] ''S_HIGH_INTEREST_LOAN''
   \<and> choice_effects \<lparr>money = 0, health = 50, stress = 50, family = 50, friendship = 50\<rparr>
       \<lparr>effects = [(''health'', 10), (''money'', 100), (''stress'', 4)],
        action = None, add_states = [], remove_states = []\<rparr> [] (small_cfg 5000) 0
     = Inr [(''health'', 10), (''money'', 100), (''stress'', 4)]
   \<and> monthly_effects \<lparr>money = 0, health = 50, stress = 50, family = 50, friendship = 50\<rparr>
       [(''health'', 10), (''money'', 100), (''stress'', 4)] [] (small_cfg 5000) 0
     = Inr [(''health'', 10), (''money'', 100), (''stress'', 4)]"
proof -
  let ?ch = "\<lparr>effects = [(''health'', 10), (''money'', 100), (''stress'', 4)],
        action = None, add_states = [], remove_states = []\<rparr>"
  let ?s = "\<lparr>money = 0, health = 50, stress = 50, family = 50, friendship = 50\<rparr>"
  have h: "distinct (map fst (effects ?ch))" "action ?ch \<noteq> Some ''PAY_RENT''"
      "\<not> has_state [] ''S_HIGH_INTEREST_LOAN''"
    by (simp_all add: has_state_def)
  have m: "monthly_effects ?s [(''health'', 10), (''money'', 100), (''stress'', 4)] []
             (small_cfg 5000) 0
           = Inr [(''health'', 10), (''money'', 100), (''stress'', 4)]"
    by (simp add: monthly_effects_def monthly_prescale_def eval_defs)
  from scaling_paths_agree[of ?ch "[]" ?s "small_cfg 5000" 0] h m
  have "choice_effects ?s ?ch [] (small_cfg 5000) 0
          = Inr [(''health'', 10), (''money'', 100), (''stress'', 4)]"
    by simp
  with h m show ?thesis by blast
qed

section \<open>Determinism\<close>




end
